theory Spec2Isabelle
  imports
    Main
    "HOL-Library.Char_ord"
    "HOL-Library.List_Lexorder"
begin

section \<open>Data model\<close>

text \<open>
  The fields of \<^verbatim>\<open>slack.Channel\<close> that \<^verbatim>\<open>main.go\<close> reads. Go strings are byte
  sequences; \<^typ>\<open>string\<close> is a list of 8-bit characters, ordered bytewise and
  lexicographically, which is the order \<^verbatim>\<open>sort.Strings\<close> uses.
\<close>

record channel =
  ID :: string
  Name :: string
  IsMember :: bool
  IsExtShared :: bool

text \<open>A Go \<^verbatim>\<open>error\<close> value: the one built by \<^verbatim>\<open>checkAuth\<close>, or one returned by the client.\<close>

datatype error = NoSlackAuthKey | ApiError string

text \<open>
  Everything the program does to the outside world, besides printing: the calls on the
  \<^verbatim>\<open>slack.Client\<close>, the pause, and the clock read with the value it gave.
\<close>

datatype effect =
    AuthTest
  | GetConversations string
  | JoinChannel string
  | LeaveChannel string
  | SetChannelReadMark string string
  | Sleep nat
  | Now int

text \<open>
  The client as the program sees it: each method reads and changes an outside world
  \<^typ>\<open>'w\<close> and returns the Go result (\<open>Inl\<close> or \<open>Some\<close> is a non-nil \<^verbatim>\<open>err\<close>).
  \<open>Unix\<close> is \<^verbatim>\<open>time.Now().Unix()\<close> and \<open>Pause\<close> is \<^verbatim>\<open>time.Sleep\<close>, in seconds.
  The clock value is an \<^verbatim>\<open>int64\<close> in the source; the program only prints it in decimal,
  so it is an \<^typ>\<open>int\<close> here.
\<close>

record 'w client =
  AuthTestContext :: "'w \<Rightarrow> (error + string \<times> string) \<times> 'w"
  GetConversationsContext :: "string \<Rightarrow> 'w \<Rightarrow> (error + channel list \<times> string) \<times> 'w"
  JoinChannelContext :: "string \<Rightarrow> 'w \<Rightarrow> error option \<times> 'w"
  LeaveChannelContext :: "string \<Rightarrow> 'w \<Rightarrow> error option \<times> 'w"
  SetChannelReadMarkContext :: "string \<Rightarrow> string \<Rightarrow> 'w \<Rightarrow> error option \<times> 'w"
  Pause :: "nat \<Rightarrow> 'w \<Rightarrow> 'w"
  Unix :: "'w \<Rightarrow> int \<times> 'w"

text \<open>
  The state of a run: the outside world, the effects issued so far, each with its outcome
  (\<open>None\<close> when it succeeded), and the chunks written to standard output, one per
  \<^verbatim>\<open>fmt.Printf\<close>.
\<close>

record 'w run =
  world :: 'w
  events :: "(effect \<times> error option) list"
  stdout :: "string list"

text \<open>The two persistent flags, \<^verbatim>\<open>--key\<close> and \<^verbatim>\<open>--dry\<close>.\<close>

record flags =
  slackKey :: string
  dryRun :: bool

text \<open>
  The local variables that the two selection loops fill. \<^verbatim>\<open>cannotLeave\<close> is declared
  in \<^verbatim>\<open>leaveSuppportCmd\<close> only; the loop of \<^verbatim>\<open>joinSuppportCmd\<close> leaves it empty.
\<close>

record selected =
  supportChannelNames :: "string list"
  channelIDs :: "string \<rightharpoonup> string"
  cannotLeave :: "string list"

section \<open>Constants and small helpers\<close>

definition defaultSupportChannels :: "string list" where
  "defaultSupportChannels = [''customersupport'', ''frame'', ''monitoring'', ''sentry'']"

definition nl :: string where
  "nl = [CHR 0x0A]"

definition rule_line :: string where
  "rule_line = nl @ ''--------------------'' @ nl"

text \<open>\<^verbatim>\<open>strings.HasPrefix(s, prefix)\<close>.\<close>

definition HasPrefix :: "string \<Rightarrow> string \<Rightarrow> bool" where
  "HasPrefix s p \<longleftrightarrow> length p \<le> length s \<and> take (length p) s = p"

text \<open>\<^verbatim>\<open>fmt.Sprintf("%d", n)\<close>.\<close>

definition digit :: "nat \<Rightarrow> char" where
  "digit d = char_of (of_char CHR ''0'' + d)"

fun decimal :: "nat \<Rightarrow> string" where
  "decimal n = (if n < 10 then [digit n] else decimal (n div 10) @ [digit (n mod 10)])"

declare decimal.simps [simp del]

definition Sprintf_d :: "int \<Rightarrow> string" where
  "Sprintf_d i = (if i < 0 then CHR ''-'' # decimal (nat (- i)) else decimal (nat i))"

text \<open>Reading a Go map: a missing key gives the zero value, the empty string.\<close>

definition lookup :: "(string \<rightharpoonup> string) \<Rightarrow> string \<Rightarrow> string" where
  "lookup m k = (case m k of None \<Rightarrow> [] | Some v \<Rightarrow> v)"

definition Printf :: "string \<Rightarrow> 'w run \<Rightarrow> 'w run" where
  "Printf line s = s\<lparr>stdout := stdout s @ [line]\<rparr>"

text \<open>The loops \<^verbatim>\<open>for _, x := range xs { fmt.Printf("%s\n", x) }\<close>.\<close>

fun print_each :: "string list \<Rightarrow> 'w run \<Rightarrow> 'w run" where
  "print_each [] s = s"
| "print_each (x # xs) s = print_each xs (Printf (x @ nl) s)"

text \<open>An effect on the world, recorded with its outcome.\<close>

definition record_effect :: "effect \<Rightarrow> error option \<Rightarrow> 'w \<Rightarrow> 'w run \<Rightarrow> 'w run" where
  "record_effect c r w s = s\<lparr>world := w, events := events s @ [(c, r)]\<rparr>"

definition err_of :: "error + 'a \<Rightarrow> error option" where
  "err_of r = (case r of Inl e \<Rightarrow> Some e | Inr _ \<Rightarrow> None)"

section \<open>checkAuth and getAllChannels\<close>

definition checkAuth :: "(string \<Rightarrow> 'w client) \<Rightarrow> flags \<Rightarrow> 'w run \<Rightarrow> (error + 'w client) \<times> 'w run" where
  "checkAuth New fl s =
     (if length (slackKey fl) = 0 then (Inl NoSlackAuthKey, s)
      else
        let api = New (slackKey fl);
            (authResp, w) = AuthTestContext api (world s);
            s1 = record_effect AuthTest (err_of authResp) w s
        in case authResp of
             Inl err \<Rightarrow> (Inl err, s1)
           | Inr (user, team) \<Rightarrow>
               (Inr api, Printf (''Logged in as: '' @ user @ nl @ [CHR 0x09] @ ''Team: '' @ team @ nl) s1))"

text \<open>
  The \<^verbatim>\<open>for\<close> loop of \<^verbatim>\<open>getAllChannels\<close>, with its two variables \<open>channels\<close> and
  \<open>cursor\<close>. Nothing bounds the number of pages, so the loop need not end: \<open>None\<close> is
  the run that never returns.
\<close>

partial_function (option) getAllChannels_loop ::
  "'w client \<Rightarrow> channel list \<Rightarrow> string \<Rightarrow> 'w run \<Rightarrow> ((error + channel list) \<times> 'w run) option"
where
  "getAllChannels_loop cl channels cursor s =
     (case GetConversationsContext cl cursor (world s) of
        (Inl err, w) \<Rightarrow> Some (Inl err, record_effect (GetConversations cursor) (Some err) w s)
      | (Inr (channelPage, nextCursor), w) \<Rightarrow>
          if length nextCursor = 0
          then Some (Inr (channels @ channelPage), record_effect (GetConversations cursor) None w s)
          else getAllChannels_loop cl (channels @ channelPage) nextCursor
                 (record_effect (GetConversations cursor) None w s))"

definition getAllChannels :: "'w client \<Rightarrow> 'w run \<Rightarrow> ((error + channel list) \<times> 'w run) option" where
  "getAllChannels cl s = getAllChannels_loop cl [] [] s"

section \<open>The selection loops\<close>

definition no_selection :: selected where
  "no_selection = \<lparr>supportChannelNames = [], channelIDs = Map.empty, cannotLeave = []\<rparr>"

text \<open>
  The two statements that select a channel:
  \<^verbatim>\<open>supportChannelNames = append(supportChannelNames, channel.Name)\<close> and
  \<^verbatim>\<open>channelIDs[channel.Name] = channel.ID\<close>.
\<close>

definition add_channel :: "channel \<Rightarrow> selected \<Rightarrow> selected" where
  "add_channel ch v =
     v\<lparr>supportChannelNames := supportChannelNames v @ [Name ch],
       channelIDs := (channelIDs v)(Name ch \<mapsto> ID ch)\<rparr>"

text \<open>
  The inner loop of \<^verbatim>\<open>joinSuppportCmd\<close> over the default channels. Its \<^verbatim>\<open>continue\<close>
  is the last statement of the inner loop's body, so the loop goes on to the next default.
\<close>

fun join_defaults :: "channel \<Rightarrow> string list \<Rightarrow> selected \<Rightarrow> selected" where
  "join_defaults ch [] v = v"
| "join_defaults ch (defaultChannel # rest) v =
     join_defaults ch rest (if defaultChannel = Name ch then add_channel ch v else v)"

text \<open>The outer loop of \<^verbatim>\<open>joinSuppportCmd\<close> over the listed channels.\<close>

fun join_select :: "channel list \<Rightarrow> selected \<Rightarrow> selected" where
  "join_select [] v = v"
| "join_select (ch # rest) v =
     (if IsMember ch then join_select rest v
      else if HasPrefix (Name ch) ''_'' then join_select rest (add_channel ch v)
      else join_select rest (join_defaults ch defaultSupportChannels v))"

text \<open>The loop of \<^verbatim>\<open>leaveSuppportCmd\<close> over the listed channels.\<close>

fun leave_select :: "channel list \<Rightarrow> selected \<Rightarrow> selected" where
  "leave_select [] v = v"
| "leave_select (ch # rest) v =
     (if \<not> IsMember ch then leave_select rest v
      else if HasPrefix (Name ch) ''_'' then
        (if IsExtShared ch
         then leave_select rest (v\<lparr>cannotLeave := cannotLeave v @ [Name ch]\<rparr>)
         else leave_select rest (add_channel ch v))
      else leave_select rest v)"

definition joinSuppportCmd_select :: "channel list \<Rightarrow> selected" where
  "joinSuppportCmd_select channels = join_select channels no_selection"

definition leaveSuppportCmd_select :: "channel list \<Rightarrow> selected" where
  "leaveSuppportCmd_select channels = leave_select channels no_selection"

section \<open>The loops over the selected names\<close>

fun join_each :: "'w client \<Rightarrow> string list \<Rightarrow> 'w run \<Rightarrow> error option \<times> 'w run" where
  "join_each cl [] s = (None, s)"
| "join_each cl (channelName # rest) s =
     (let (err, w) = JoinChannelContext cl channelName (world s);
          s1 = record_effect (JoinChannel channelName) err w s
      in case err of
           Some e \<Rightarrow> (Some e, s1)
         | None \<Rightarrow> join_each cl rest (Printf (''Joined '' @ channelName @ nl) s1))"

fun mark_each ::
  "'w client \<Rightarrow> (string \<rightharpoonup> string) \<Rightarrow> string \<Rightarrow> string list \<Rightarrow> 'w run \<Rightarrow> error option \<times> 'w run"
where
  "mark_each cl ids timestamp [] s = (None, s)"
| "mark_each cl ids timestamp (channelName # rest) s =
     (let channelID = lookup ids channelName;
          (err, w) = SetChannelReadMarkContext cl channelID timestamp (world s);
          s1 = record_effect (SetChannelReadMark channelID timestamp) err w s
      in case err of
           Some e \<Rightarrow> (Some e, s1)
         | None \<Rightarrow> mark_each cl ids timestamp rest (Printf (channelName @ '' is marked as read.'' @ nl) s1))"

fun leave_each ::
  "'w client \<Rightarrow> (string \<rightharpoonup> string) \<Rightarrow> string list \<Rightarrow> 'w run \<Rightarrow> error option \<times> 'w run"
where
  "leave_each cl ids [] s = (None, s)"
| "leave_each cl ids (channelName # rest) s =
     (let channelID = lookup ids channelName;
          (err, w) = LeaveChannelContext cl channelID (world s);
          s1 = record_effect (LeaveChannel channelID) err w s
      in case err of
           Some e \<Rightarrow> (Some e, s1)
         | None \<Rightarrow> leave_each cl ids rest (Printf (''Left '' @ channelName @ nl) s1))"

section \<open>The two commands\<close>

text \<open>
  \<^verbatim>\<open>joinSuppportCmd\<close> from the selection loop to its last \<^verbatim>\<open>return\<close>, on the channels
  that \<^verbatim>\<open>getAllChannels\<close> returned. The result is the \<^verbatim>\<open>error\<close> that the command
  hands to \<^verbatim>\<open>wrap\<close>, which prints a non-nil one and exits with status 1.
\<close>

definition joinSuppportCmd_exec ::
  "'w client \<Rightarrow> flags \<Rightarrow> channel list \<Rightarrow> 'w run \<Rightarrow> error option \<times> 'w run"
where
  "joinSuppportCmd_exec cl fl channels s0 =
     (let v = joinSuppportCmd_select channels;
          s1 = Printf rule_line s0
      in if length (supportChannelNames v) = 0
         then (None, Printf (''There are no support channels left for you to join.'' @ nl) s1)
         else
           let names = sort (supportChannelNames v);
               s2 = print_each names (Printf (''You will be joining the following channels:'' @ nl) s1)
           in if dryRun fl
              then (None, Printf (''Dry run only, no joins were performed.'' @ nl) (Printf rule_line s2))
              else
                case join_each cl names s2 of
                  (Some err, s3) \<Rightarrow> (Some err, s3)
                | (None, s3) \<Rightarrow>
                    (let s4 = Printf (''Marking all the joined channels as read.'' @ nl) (Printf rule_line s3);
                         s5 = record_effect (Sleep 5) None (Pause cl 5 (world s4)) s4;
                         (t, w) = Unix cl (world s5);
                         s6 = record_effect (Now t) None w s5;
                         timestamp = Sprintf_d t;
                         s7 = Printf (timestamp @ nl) s6
                     in (case mark_each cl (channelIDs v) timestamp names s7 of
                           (Some err, s8) \<Rightarrow> (Some err, s8)
                         | (None, s8) \<Rightarrow> (None, Printf (''Done!'' @ nl @ nl) (Printf rule_line s8)))))"

text \<open>\<^verbatim>\<open>leaveSuppportCmd\<close> from the selection loop to its last \<^verbatim>\<open>return\<close>.\<close>

definition manual_header :: string where
  "manual_header = ''The following shared channels must be left manually:'' @ nl"

definition leaveSuppportCmd_exec ::
  "'w client \<Rightarrow> flags \<Rightarrow> channel list \<Rightarrow> 'w run \<Rightarrow> error option \<times> 'w run"
where
  "leaveSuppportCmd_exec cl fl channels s0 =
     (let v = leaveSuppportCmd_select channels;
          s1 = Printf rule_line s0
      in if length (supportChannelNames v) = 0
         then (None, Printf (''There are no support channels left for you to leave.'' @ nl) s1)
         else
           let names = sort (supportChannelNames v);
               s2 = print_each names (Printf (''You will be leaving the following channels:'' @ nl) s1)
           in if dryRun fl
              then (None,
                    Printf (nl @ ''Dry run only, no exits were performed.'' @ nl)
                      (print_each (cannotLeave v) (Printf manual_header (Printf rule_line s2))))
              else
                case leave_each cl (channelIDs v) names (Printf rule_line s2) of
                  (Some err, s3) \<Rightarrow> (Some err, s3)
                | (None, s3) \<Rightarrow>
                    (None,
                     Printf (''Done!'' @ nl @ nl)
                       (Printf rule_line
                          (print_each (cannotLeave v) (Printf manual_header (Printf rule_line s3))))))"

text \<open>
  The whole commands, from \<^verbatim>\<open>checkAuth\<close> on. \<open>New\<close> is \<^verbatim>\<open>slack.New\<close>. \<open>None\<close> is a run
  whose listing never ends.
\<close>

definition joinSuppportCmd ::
  "(string \<Rightarrow> 'w client) \<Rightarrow> flags \<Rightarrow> 'w run \<Rightarrow> (error option \<times> 'w run) option"
where
  "joinSuppportCmd New fl s =
     (case checkAuth New fl s of
        (Inl err, s1) \<Rightarrow> Some (Some err, s1)
      | (Inr cl, s1) \<Rightarrow>
          (case getAllChannels cl s1 of
             None \<Rightarrow> None
           | Some (Inl err, s2) \<Rightarrow> Some (Some err, s2)
           | Some (Inr channels, s2) \<Rightarrow> Some (joinSuppportCmd_exec cl fl channels s2)))"

definition leaveSuppportCmd ::
  "(string \<Rightarrow> 'w client) \<Rightarrow> flags \<Rightarrow> 'w run \<Rightarrow> (error option \<times> 'w run) option"
where
  "leaveSuppportCmd New fl s =
     (case checkAuth New fl s of
        (Inl err, s1) \<Rightarrow> Some (Some err, s1)
      | (Inr cl, s1) \<Rightarrow>
          (case getAllChannels cl s1 of
             None \<Rightarrow> None
           | Some (Inl err, s2) \<Rightarrow> Some (Some err, s2)
           | Some (Inr channels, s2) \<Rightarrow> Some (leaveSuppportCmd_exec cl fl channels s2)))"

section \<open>Vocabulary of the properties\<close>

text \<open>The calls that change memberships or read cursors.\<close>

fun mutating :: "effect \<Rightarrow> bool" where
  "mutating (JoinChannel _) = True"
| "mutating (LeaveChannel _) = True"
| "mutating (SetChannelReadMark _ _) = True"
| "mutating _ = False"

text \<open>The effects a run adds to those issued before it, and the chunks it prints.\<close>

definition issued :: "'w run \<Rightarrow> 'w run \<Rightarrow> (effect \<times> error option) list" where
  "issued s s' = drop (length (events s)) (events s')"

definition printed :: "'w run \<Rightarrow> 'w run \<Rightarrow> string list" where
  "printed s s' = drop (length (stdout s)) (stdout s')"

text \<open>The two selection predicates, per channel.\<close>

definition joinable :: "channel \<Rightarrow> bool" where
  "joinable ch \<longleftrightarrow>
     \<not> IsMember ch \<and> (HasPrefix (Name ch) ''_'' \<or> Name ch \<in> set defaultSupportChannels)"

definition leavable :: "channel \<Rightarrow> bool" where
  "leavable ch \<longleftrightarrow> IsMember ch \<and> HasPrefix (Name ch) ''_'' \<and> \<not> IsExtShared ch"

definition stuck :: "channel \<Rightarrow> bool" where
  "stuck ch \<longleftrightarrow> IsMember ch \<and> HasPrefix (Name ch) ''_'' \<and> IsExtShared ch"

text \<open>
  The trace of a loop that calls \<open>f n\<close> for each name \<open>n\<close>: either every call
  succeeded, or the calls for the first \<open>k\<close> names succeeded, the next one failed with
  \<open>e\<close>, and nothing was called after it.
\<close>

definition completed :: "(string \<Rightarrow> effect) \<Rightarrow> string list \<Rightarrow> (effect \<times> error option) list" where
  "completed f names = map (\<lambda>n. (f n, None)) names"

definition aborted_at ::
  "(string \<Rightarrow> effect) \<Rightarrow> string list \<Rightarrow> nat \<Rightarrow> error \<Rightarrow> (effect \<times> error option) list" where
  "aborted_at f names k e = map (\<lambda>n. (f n, None)) (take k names) @ [(f (names ! k), Some e)]"

text \<open>The call that the marking loop and the leaving loop make for a name.\<close>

definition mark_of :: "(string \<rightharpoonup> string) \<Rightarrow> string \<Rightarrow> string \<Rightarrow> effect" where
  "mark_of ids timestamp n = SetChannelReadMark (lookup ids n) timestamp"

definition leave_of :: "(string \<rightharpoonup> string) \<Rightarrow> string \<Rightarrow> effect" where
  "leave_of ids n = LeaveChannel (lookup ids n)"

fun is_join :: "effect \<Rightarrow> bool" where
  "is_join (JoinChannel _) = True"
| "is_join _ = False"

fun is_leave :: "effect \<Rightarrow> bool" where
  "is_leave (LeaveChannel _) = True"
| "is_leave _ = False"

fun is_mark :: "effect \<Rightarrow> bool" where
  "is_mark (SetChannelReadMark _ _) = True"
| "is_mark _ = False"

fun is_clock :: "effect \<Rightarrow> bool" where
  "is_clock (Now _) = True"
| "is_clock _ = False"

text \<open>
  The common shape of the three loops over the names, used to reason about them once:
  \<open>call\<close> is the client method, \<open>f\<close> the effect recorded for it, \<open>msg\<close> the line
  printed after a success.
\<close>

fun each ::
  "(string \<Rightarrow> 'w \<Rightarrow> error option \<times> 'w) \<Rightarrow> (string \<Rightarrow> effect) \<Rightarrow> (string \<Rightarrow> string) \<Rightarrow>
   string list \<Rightarrow> 'w run \<Rightarrow> error option \<times> 'w run"
where
  "each call f msg [] s = (None, s)"
| "each call f msg (n # ns) s =
     (let (err, w) = call n (world s);
          s1 = record_effect (f n) err w s
      in case err of
           Some e \<Rightarrow> (Some e, s1)
         | None \<Rightarrow> each call f msg ns (Printf (msg n) s1))"

text \<open>
  A listing in progress: starting with \<open>cursor\<close>, the client answered the pages of
  \<open>ps\<close> one after the other, each with the non-empty cursor that the next request
  then sent. The result is the cursor and the world of the request that follows.
\<close>

fun fetched ::
  "'w client \<Rightarrow> string \<Rightarrow> 'w \<Rightarrow> (channel list \<times> string) list \<Rightarrow> (string \<times> 'w) option"
where
  "fetched cl cursor w [] = Some (cursor, w)"
| "fetched cl cursor w ((page, next) # ps) =
     (case GetConversationsContext cl cursor w of
        (Inr (p, n), w') \<Rightarrow>
          if p = page \<and> n = next \<and> next \<noteq> [] then fetched cl next w' ps else None
      | (Inl e, w') \<Rightarrow> None)"

section \<open>A scripted client for concrete runs\<close>

text \<open>
  The world is the clock, in seconds. The listing answers from a table of pages keyed by
  cursor; a call fails when its argument is in \<open>failing\<close>.
\<close>

definition scripted :: "(string \<times> channel list \<times> string) list \<Rightarrow> string list \<Rightarrow> int client" where
  "scripted pages failing =
     \<lparr>AuthTestContext = (\<lambda>w. (Inr (''operator'', ''roach''), w)),
      GetConversationsContext =
        (\<lambda>cursor w. (case map_of pages cursor of
                        None \<Rightarrow> Inl (ApiError ''invalid_cursor'')
                      | Some r \<Rightarrow> Inr r, w)),
      JoinChannelContext =
        (\<lambda>name w. (if name \<in> set failing then Some (ApiError name) else None, w)),
      LeaveChannelContext =
        (\<lambda>channelID w. (if channelID \<in> set failing then Some (ApiError channelID) else None, w)),
      SetChannelReadMarkContext =
        (\<lambda>channelID timestamp w.
           (if channelID \<in> set failing then Some (ApiError channelID) else None, w)),
      Pause = (\<lambda>n w. w + int n),
      Unix = (\<lambda>w. (w, w))\<rparr>"

definition fresh :: "int \<Rightarrow> int run" where
  "fresh t = \<lparr>world = t, events = [], stdout = []\<rparr>"

definition chan :: "string \<Rightarrow> string \<Rightarrow> bool \<Rightarrow> bool \<Rightarrow> channel" where
  "chan i n m x = \<lparr>ID = i, Name = n, IsMember = m, IsExtShared = x\<rparr>"

text \<open>Channel lists for concrete runs.\<close>

definition scenario_A :: "channel list" where
  "scenario_A =
     [chan ''C1'' ''_acme'' False False, chan ''C2'' ''frame'' False False,
      chan ''C3'' ''random'' False False, chan ''C4'' ''_zeta'' True False,
      chan ''C5'' ''_Shared'' False True, chan ''C6'' ''Frame'' False False]"

definition scenario_leave :: "channel list" where
  "scenario_leave =
     [chan ''C1'' ''_acme'' True True, chan ''C2'' ''_beta'' True False,
      chan ''C3'' ''frame'' True False, chan ''C4'' ''_gamma'' False False,
      chan ''C5'' ''_alpha'' True False]"

definition scenario_B :: "channel list" where
  "scenario_B = [chan ''C1'' ''_acme'' True True]"

definition scenario_D :: "channel list" where
  "scenario_D = [chan ''C2'' ''_b'' False False, chan ''C3'' ''_a'' False False]"

definition live :: flags where
  "live = \<lparr>slackKey = ''xoxp-1'', dryRun = False\<rparr>"

definition dry :: flags where
  "dry = \<lparr>slackKey = ''xoxp-1'', dryRun = True\<rparr>"

definition two_pages :: "(string \<times> channel list \<times> string) list" where
  "two_pages =
     [([], [chan ''C2'' ''_b'' False False], ''n1''),
      (''n1'', [chan ''C3'' ''_a'' False False, chan ''C4'' ''random'' False False], [])]"

definition broken_pages :: "(string \<times> channel list \<times> string) list" where
  "broken_pages = [([], [chan ''C2'' ''_b'' False False], ''n1'')]"

definition twins_join :: "channel list" where
  "twins_join = [chan ''C1'' ''_acme'' False False, chan ''C2'' ''_acme'' False False]"

definition twins_leave :: "channel list" where
  "twins_leave = [chan ''C1'' ''_acme'' True False, chan ''C2'' ''_acme'' True False]"

section \<open>What the selection loops compute\<close>

lemma add_channel_simps [simp]:
  "supportChannelNames (add_channel ch v) = supportChannelNames v @ [Name ch]"
  "cannotLeave (add_channel ch v) = cannotLeave v"
  "channelIDs (add_channel ch v) = (channelIDs v)(Name ch \<mapsto> ID ch)"
  by (simp_all add: add_channel_def)

lemma join_defaults_names:
  "supportChannelNames (join_defaults ch ds v) =
     supportChannelNames v @ replicate (count_list ds (Name ch)) (Name ch)"
  by (induction ds arbitrary: v) (auto simp: replicate_append_same)

lemma join_defaults_cannotLeave: "cannotLeave (join_defaults ch ds v) = cannotLeave v"
  by (induction ds arbitrary: v) auto

text \<open>The default names are pairwise different, so a name matches at most one of them.\<close>

lemma count_defaults:
  "count_list defaultSupportChannels n = (if n \<in> set defaultSupportChannels then 1 else 0)"
  by (simp add: defaultSupportChannels_def)

lemma join_select_names:
  "supportChannelNames (join_select chs v) = supportChannelNames v @ map Name (filter joinable chs)"
  by (induction chs arbitrary: v)
     (auto simp: joinable_def join_defaults_names count_defaults)

lemma join_select_cannotLeave: "cannotLeave (join_select chs v) = cannotLeave v"
  by (induction chs arbitrary: v) (auto simp: join_defaults_cannotLeave)

lemma leave_select_names:
  "supportChannelNames (leave_select chs v) = supportChannelNames v @ map Name (filter leavable chs)"
  by (induction chs arbitrary: v) (auto simp: leavable_def)

lemma leave_select_cannotLeave:
  "cannotLeave (leave_select chs v) = cannotLeave v @ map Name (filter stuck chs)"
  by (induction chs arbitrary: v) (auto simp: stuck_def)

lemma joinSuppportCmd_select_names:
  "supportChannelNames (joinSuppportCmd_select L) = map Name (filter joinable L)"
  by (simp add: joinSuppportCmd_select_def join_select_names no_selection_def)

lemma joinSuppportCmd_select_cannotLeave: "cannotLeave (joinSuppportCmd_select L) = []"
  by (simp add: joinSuppportCmd_select_def join_select_cannotLeave no_selection_def)

lemma leaveSuppportCmd_select_names:
  "supportChannelNames (leaveSuppportCmd_select L) = map Name (filter leavable L)"
  by (simp add: leaveSuppportCmd_select_def leave_select_names no_selection_def)

lemma leaveSuppportCmd_select_cannotLeave:
  "cannotLeave (leaveSuppportCmd_select L) = map Name (filter stuck L)"
  by (simp add: leaveSuppportCmd_select_def leave_select_cannotLeave no_selection_def)

lemma joinable_eq:
  "joinable = (\<lambda>ch. \<not> IsMember ch \<and>
     (HasPrefix (Name ch) ''_'' \<or> Name ch \<in> set defaultSupportChannels))"
  by (rule ext) (simp add: joinable_def)

lemma leavable_eq:
  "leavable = (\<lambda>ch. IsMember ch \<and> HasPrefix (Name ch) ''_'' \<and> \<not> IsExtShared ch)"
  by (rule ext) (simp add: leavable_def)

lemma stuck_eq:
  "stuck = (\<lambda>ch. IsMember ch \<and> HasPrefix (Name ch) ''_'' \<and> IsExtShared ch)"
  by (rule ext) (simp add: stuck_def)

lemma scenario_A_names:
  "sort (supportChannelNames (joinSuppportCmd_select scenario_A)) = [''_Shared'', ''_acme'', ''frame'']"
  by (simp add: scenario_A_def chan_def joinSuppportCmd_select_def no_selection_def
        HasPrefix_def defaultSupportChannels_def)

lemma scenario_leave_names:
  "sort (supportChannelNames (leaveSuppportCmd_select scenario_leave)) = [''_alpha'', ''_beta'']"
  by (simp add: scenario_leave_def chan_def leaveSuppportCmd_select_def no_selection_def HasPrefix_def)

lemma scenario_leave_cannotLeave:
  "cannotLeave (leaveSuppportCmd_select scenario_leave) = [''_acme'']"
  by (simp add: scenario_leave_def chan_def leaveSuppportCmd_select_def no_selection_def HasPrefix_def)

text \<open>When no two listed channels share a name, a name determines its channel.\<close>

lemma same_name_same_channel:
  "distinct (map Name L) \<Longrightarrow> ch \<in> set L \<Longrightarrow> ch' \<in> set L \<Longrightarrow> Name ch = Name ch' \<Longrightarrow> ch = ch'"
  by (auto simp: distinct_map dest: inj_onD)

text \<open>
  C1. In Join mode the sorted names are the names of exactly those listed channels that
  are not members and whose name starts with \<open>_\<close> or is one of the four default names
  (compared as strings, so case matters). Hence every selected name comes from a
  non-member channel and starts with \<open>_\<close> or is a default name, and a non-member channel
  whose name starts with \<open>_\<close> is selected whatever its other fields are. When the listed
  names are pairwise different, the name of a member channel is not selected.
\<close>

theorem join_selection:
  "sort (supportChannelNames (joinSuppportCmd_select L)) =
     sort (map Name (filter (\<lambda>ch. \<not> IsMember ch \<and>
        (HasPrefix (Name ch) ''_'' \<or> Name ch \<in> set defaultSupportChannels)) L))
   \<and> (\<forall>n \<in> set (sort (supportChannelNames (joinSuppportCmd_select L))).
         (\<exists>ch \<in> set L. Name ch = n \<and> \<not> IsMember ch) \<and>
         (HasPrefix n ''_'' \<or> n \<in> set [''customersupport'', ''frame'', ''monitoring'', ''sentry'']))
   \<and> (\<forall>ch \<in> set L. \<not> IsMember ch \<and> HasPrefix (Name ch) ''_'' \<longrightarrow>
         Name ch \<in> set (sort (supportChannelNames (joinSuppportCmd_select L))))
   \<and> (distinct (map Name L) \<longrightarrow>
         (\<forall>ch \<in> set L. IsMember ch \<longrightarrow>
            Name ch \<notin> set (sort (supportChannelNames (joinSuppportCmd_select L)))))"
proof -
  have sel: "supportChannelNames (joinSuppportCmd_select L) = map Name (filter joinable L)"
    by (rule joinSuppportCmd_select_names)
  have defaults: "set [''customersupport'', ''frame'', ''monitoring'', ''sentry''] = set defaultSupportChannels"
    by (simp add: defaultSupportChannels_def)
  have member: "Name ch \<notin> set (map Name (filter joinable L))"
    if d: "distinct (map Name L)" and ch: "ch \<in> set L" "IsMember ch" for ch
  proof
    assume "Name ch \<in> set (map Name (filter joinable L))"
    then obtain ch' where ch': "ch' \<in> set L" "joinable ch'" "Name ch' = Name ch"
      by auto
    from same_name_same_channel [OF d ch(1) ch'(1)] ch'(3) have "ch = ch'"
      by simp
    with ch(2) ch'(2) show False
      by (simp add: joinable_def)
  qed
  have rest: "sort (map Name (filter joinable L)) =
     sort (map Name (filter (\<lambda>ch. \<not> IsMember ch \<and>
        (HasPrefix (Name ch) ''_'' \<or> Name ch \<in> set defaultSupportChannels)) L))
   \<and> (\<forall>n \<in> set (sort (map Name (filter joinable L))).
         (\<exists>ch \<in> set L. Name ch = n \<and> \<not> IsMember ch) \<and>
         (HasPrefix n ''_'' \<or> n \<in> set defaultSupportChannels))
   \<and> (\<forall>ch \<in> set L. \<not> IsMember ch \<and> HasPrefix (Name ch) ''_'' \<longrightarrow>
         Name ch \<in> set (sort (map Name (filter joinable L))))"
    by (auto simp: joinable_eq)
  from member have "distinct (map Name L) \<longrightarrow>
      (\<forall>ch \<in> set L. IsMember ch \<longrightarrow> Name ch \<notin> set (sort (map Name (filter joinable L))))"
    by simp
  with rest show ?thesis
    unfolding sel defaults by blast
qed

theorem join_selection_witness:
  "sort (supportChannelNames (joinSuppportCmd_select scenario_A)) = [''_Shared'', ''_acme'', ''frame'']
   \<and> ''frame'' \<in> set (sort (supportChannelNames (joinSuppportCmd_select scenario_A)))
   \<and> (\<exists>ch \<in> set scenario_A. Name ch = ''frame'' \<and> \<not> IsMember ch)
   \<and> (HasPrefix ''frame'' ''_'' \<or> ''frame'' \<in> set [''customersupport'', ''frame'', ''monitoring'', ''sentry''])
   \<and> chan ''C5'' ''_Shared'' False True \<in> set scenario_A
   \<and> \<not> IsMember (chan ''C5'' ''_Shared'' False True)
   \<and> HasPrefix (Name (chan ''C5'' ''_Shared'' False True)) ''_''
   \<and> Name (chan ''C5'' ''_Shared'' False True) \<in>
       set (sort (supportChannelNames (joinSuppportCmd_select scenario_A)))
   \<and> distinct (map Name scenario_A)
   \<and> chan ''C4'' ''_zeta'' True False \<in> set scenario_A
   \<and> IsMember (chan ''C4'' ''_zeta'' True False)
   \<and> Name (chan ''C4'' ''_zeta'' True False) \<notin>
       set (sort (supportChannelNames (joinSuppportCmd_select scenario_A)))"
proof -
  note t = join_selection [of scenario_A]
  have names: "sort (supportChannelNames (joinSuppportCmd_select scenario_A)) = [''_Shared'', ''_acme'', ''frame'']"
    by (rule scenario_A_names)
  have m: "''frame'' \<in> set (sort (supportChannelNames (joinSuppportCmd_select scenario_A)))"
    unfolding names by simp
  have c: "chan ''C5'' ''_Shared'' False True \<in> set scenario_A"
    "chan ''C4'' ''_zeta'' True False \<in> set scenario_A"
    by (simp_all add: scenario_A_def)
  have h: "\<not> IsMember (chan ''C5'' ''_Shared'' False True)
      \<and> HasPrefix (Name (chan ''C5'' ''_Shared'' False True)) ''_''"
    "IsMember (chan ''C4'' ''_zeta'' True False)"
    by (simp_all add: chan_def HasPrefix_def)
  have d: "distinct (map Name scenario_A)"
    by (simp add: scenario_A_def chan_def)
  from t m have sound: "(\<exists>ch \<in> set scenario_A. Name ch = ''frame'' \<and> \<not> IsMember ch)
      \<and> (HasPrefix ''frame'' ''_'' \<or> ''frame'' \<in> set [''customersupport'', ''frame'', ''monitoring'', ''sentry''])"
    by blast
  from t c(1) h(1) have inc: "Name (chan ''C5'' ''_Shared'' False True) \<in>
       set (sort (supportChannelNames (joinSuppportCmd_select scenario_A)))"
    by blast
  from t d c(2) h(2) have "Name (chan ''C4'' ''_zeta'' True False) \<notin>
       set (sort (supportChannelNames (joinSuppportCmd_select scenario_A)))"
    by blast
  with names m c h d sound inc show ?thesis by blast
qed

text \<open>
  C2. In Leave mode the sorted names are the names of exactly those listed channels that
  are members, start with \<open>_\<close> and are not externally shared, and \<open>cannotLeave\<close> holds,
  in listing order, the names of the member channels that start with \<open>_\<close> and are
  externally shared: each such channel goes to \<open>cannotLeave\<close> and not to the names.
  When the listed names are pairwise different, its name is not among the names.
\<close>

theorem leave_selection:
  "sort (supportChannelNames (leaveSuppportCmd_select L)) =
     sort (map Name (filter (\<lambda>ch. IsMember ch \<and> HasPrefix (Name ch) ''_'' \<and> \<not> IsExtShared ch) L))
   \<and> cannotLeave (leaveSuppportCmd_select L) =
     map Name (filter (\<lambda>ch. IsMember ch \<and> HasPrefix (Name ch) ''_'' \<and> IsExtShared ch) L)
   \<and> (\<forall>n \<in> set (sort (supportChannelNames (leaveSuppportCmd_select L))).
         \<exists>ch \<in> set L. Name ch = n \<and> IsMember ch \<and> HasPrefix n ''_'' \<and> \<not> IsExtShared ch)
   \<and> (\<forall>ch \<in> set L. IsMember ch \<and> HasPrefix (Name ch) ''_'' \<and> IsExtShared ch \<longrightarrow>
         Name ch \<in> set (cannotLeave (leaveSuppportCmd_select L)))
   \<and> (distinct (map Name L) \<longrightarrow>
         (\<forall>ch \<in> set L. IsMember ch \<and> HasPrefix (Name ch) ''_'' \<and> IsExtShared ch \<longrightarrow>
            Name ch \<notin> set (sort (supportChannelNames (leaveSuppportCmd_select L)))))"
proof -
  have shared: "Name ch \<notin> set (map Name (filter leavable L))"
    if d: "distinct (map Name L)" and ch: "ch \<in> set L" "IsExtShared ch" for ch
  proof
    assume "Name ch \<in> set (map Name (filter leavable L))"
    then obtain ch' where ch': "ch' \<in> set L" "leavable ch'" "Name ch' = Name ch"
      by auto
    from same_name_same_channel [OF d ch(1) ch'(1)] ch'(3) have "ch = ch'"
      by simp
    with ch(2) ch'(2) show False
      by (simp add: leavable_def)
  qed
  have rest: "sort (map Name (filter leavable L)) =
     sort (map Name (filter (\<lambda>ch. IsMember ch \<and> HasPrefix (Name ch) ''_'' \<and> \<not> IsExtShared ch) L))
   \<and> map Name (filter stuck L) =
     map Name (filter (\<lambda>ch. IsMember ch \<and> HasPrefix (Name ch) ''_'' \<and> IsExtShared ch) L)
   \<and> (\<forall>n \<in> set (sort (map Name (filter leavable L))).
         \<exists>ch \<in> set L. Name ch = n \<and> IsMember ch \<and> HasPrefix n ''_'' \<and> \<not> IsExtShared ch)
   \<and> (\<forall>ch \<in> set L. IsMember ch \<and> HasPrefix (Name ch) ''_'' \<and> IsExtShared ch \<longrightarrow>
         Name ch \<in> set (map Name (filter stuck L)))"
    by (auto simp: leavable_eq stuck_eq)
  from shared have "distinct (map Name L) \<longrightarrow>
         (\<forall>ch \<in> set L. IsMember ch \<and> HasPrefix (Name ch) ''_'' \<and> IsExtShared ch \<longrightarrow>
            Name ch \<notin> set (sort (map Name (filter leavable L))))"
    by simp
  with rest show ?thesis
    unfolding leaveSuppportCmd_select_names leaveSuppportCmd_select_cannotLeave by blast
qed

theorem leave_selection_witness:
  "sort (supportChannelNames (leaveSuppportCmd_select scenario_leave)) = [''_alpha'', ''_beta'']
   \<and> cannotLeave (leaveSuppportCmd_select scenario_leave) = [''_acme'']
   \<and> ''_beta'' \<in> set (sort (supportChannelNames (leaveSuppportCmd_select scenario_leave)))
   \<and> (\<exists>ch \<in> set scenario_leave.
         Name ch = ''_beta'' \<and> IsMember ch \<and> HasPrefix ''_beta'' ''_'' \<and> \<not> IsExtShared ch)
   \<and> distinct (map Name scenario_leave)
   \<and> chan ''C1'' ''_acme'' True True \<in> set scenario_leave
   \<and> IsMember (chan ''C1'' ''_acme'' True True)
   \<and> HasPrefix (Name (chan ''C1'' ''_acme'' True True)) ''_''
   \<and> IsExtShared (chan ''C1'' ''_acme'' True True)
   \<and> Name (chan ''C1'' ''_acme'' True True) \<in> set (cannotLeave (leaveSuppportCmd_select scenario_leave))
   \<and> Name (chan ''C1'' ''_acme'' True True) \<notin>
       set (sort (supportChannelNames (leaveSuppportCmd_select scenario_leave)))"
proof -
  note t = leave_selection [of scenario_leave]
  have names: "sort (supportChannelNames (leaveSuppportCmd_select scenario_leave)) = [''_alpha'', ''_beta'']"
    by (rule scenario_leave_names)
  have m: "''_beta'' \<in> set (sort (supportChannelNames (leaveSuppportCmd_select scenario_leave)))"
    unfolding names by simp
  have c: "chan ''C1'' ''_acme'' True True \<in> set scenario_leave"
    by (simp add: scenario_leave_def)
  have h: "IsMember (chan ''C1'' ''_acme'' True True)
      \<and> HasPrefix (Name (chan ''C1'' ''_acme'' True True)) ''_''
      \<and> IsExtShared (chan ''C1'' ''_acme'' True True)"
    by (simp add: chan_def HasPrefix_def)
  have d: "distinct (map Name scenario_leave)"
    by (simp add: scenario_leave_def chan_def)
  from t m have sound: "\<exists>ch \<in> set scenario_leave.
         Name ch = ''_beta'' \<and> IsMember ch \<and> HasPrefix ''_beta'' ''_'' \<and> \<not> IsExtShared ch"
    by blast
  from t c h have inc: "Name (chan ''C1'' ''_acme'' True True) \<in>
       set (cannotLeave (leaveSuppportCmd_select scenario_leave))"
    by blast
  from t d c h have "Name (chan ''C1'' ''_acme'' True True) \<notin>
       set (sort (supportChannelNames (leaveSuppportCmd_select scenario_leave)))"
    by blast
  with names scenario_leave_cannotLeave m c h d sound inc show ?thesis by blast
qed

section \<open>The identifiers kept for the selected names\<close>

text \<open>
  Every selected name has an entry in \<open>channelIDs\<close>, and the entry is the identifier of a
  listed channel with that name that passed the membership test of the loop (the last
  such channel, when several share the name).
\<close>

lemma add_channel_ids:
  assumes inv: "\<forall>n \<in> set (supportChannelNames v).
      \<exists>c \<in> set L. Name c = n \<and> Q c \<and> channelIDs v n = Some (ID c)"
    and ch: "ch \<in> set L" "Q ch"
  shows "\<forall>n \<in> set (supportChannelNames (add_channel ch v)).
      \<exists>c \<in> set L. Name c = n \<and> Q c \<and> channelIDs (add_channel ch v) n = Some (ID c)"
proof
  fix n assume n: "n \<in> set (supportChannelNames (add_channel ch v))"
  show "\<exists>c \<in> set L. Name c = n \<and> Q c \<and> channelIDs (add_channel ch v) n = Some (ID c)"
  proof (cases "n = Name ch")
    case True
    with ch show ?thesis by auto
  next
    case False
    with n have "n \<in> set (supportChannelNames v)"
      by simp
    with inv obtain c where "c \<in> set L" "Name c = n" "Q c" "channelIDs v n = Some (ID c)"
      by blast
    with False show ?thesis by auto
  qed
qed

lemma join_defaults_ids:
  assumes "\<forall>n \<in> set (supportChannelNames v).
      \<exists>c \<in> set L. Name c = n \<and> Q c \<and> channelIDs v n = Some (ID c)"
    and "ch \<in> set L" "Q ch"
  shows "\<forall>n \<in> set (supportChannelNames (join_defaults ch ds v)).
      \<exists>c \<in> set L. Name c = n \<and> Q c \<and> channelIDs (join_defaults ch ds v) n = Some (ID c)"
  using assms
proof (induction ds arbitrary: v)
  case Nil
  then show ?case by simp
next
  case (Cons d ds)
  show ?case
  proof (cases "d = Name ch")
    case True
    from add_channel_ids [OF Cons.prems] Cons.IH [of "add_channel ch v"] Cons.prems(2,3) True
    show ?thesis by simp
  next
    case False
    with Cons.IH [OF Cons.prems] show ?thesis by simp
  qed
qed

lemma join_select_ids:
  assumes "\<forall>n \<in> set (supportChannelNames v).
      \<exists>c \<in> set L. Name c = n \<and> \<not> IsMember c \<and> channelIDs v n = Some (ID c)"
    and "set chs \<subseteq> set L"
  shows "\<forall>n \<in> set (supportChannelNames (join_select chs v)).
      \<exists>c \<in> set L. Name c = n \<and> \<not> IsMember c \<and> channelIDs (join_select chs v) n = Some (ID c)"
  using assms
proof (induction chs arbitrary: v)
  case Nil
  then show ?case by simp
next
  case (Cons ch chs)
  from Cons.prems(2) have ch: "ch \<in> set L" and sub: "set chs \<subseteq> set L"
    by simp_all
  show ?case
  proof (cases "IsMember ch")
    case True
    with Cons.IH [OF Cons.prems(1) sub] show ?thesis by simp
  next
    case False
    show ?thesis
    proof (cases "HasPrefix (Name ch) ''_''")
      case True
      from add_channel_ids [where Q = "\<lambda>c. \<not> IsMember c", OF Cons.prems(1) ch False]
      have "\<forall>n \<in> set (supportChannelNames (add_channel ch v)).
          \<exists>c \<in> set L. Name c = n \<and> \<not> IsMember c \<and> channelIDs (add_channel ch v) n = Some (ID c)" .
      from Cons.IH [OF this sub] False True show ?thesis by simp
    next
      case nop: False
      from join_defaults_ids [where Q = "\<lambda>c. \<not> IsMember c", OF Cons.prems(1) ch False]
      have "\<forall>n \<in> set (supportChannelNames (join_defaults ch defaultSupportChannels v)).
          \<exists>c \<in> set L. Name c = n \<and> \<not> IsMember c
            \<and> channelIDs (join_defaults ch defaultSupportChannels v) n = Some (ID c)" .
      from Cons.IH [OF this sub] False nop show ?thesis by simp
    qed
  qed
qed

lemma leave_select_ids:
  assumes "\<forall>n \<in> set (supportChannelNames v).
      \<exists>c \<in> set L. Name c = n \<and> IsMember c \<and> channelIDs v n = Some (ID c)"
    and "set chs \<subseteq> set L"
  shows "\<forall>n \<in> set (supportChannelNames (leave_select chs v)).
      \<exists>c \<in> set L. Name c = n \<and> IsMember c \<and> channelIDs (leave_select chs v) n = Some (ID c)"
  using assms
proof (induction chs arbitrary: v)
  case Nil
  then show ?case by simp
next
  case (Cons ch chs)
  from Cons.prems(2) have ch: "ch \<in> set L" and sub: "set chs \<subseteq> set L"
    by simp_all
  show ?case
  proof (cases "IsMember ch \<and> HasPrefix (Name ch) ''_''")
    case False
    with Cons.IH [OF Cons.prems(1) sub] show ?thesis by auto
  next
    case True
    then have mem: "IsMember ch" and pre: "HasPrefix (Name ch) ''_''"
      by simp_all
    show ?thesis
    proof (cases "IsExtShared ch")
      case True
      from Cons.prems(1)
      have "\<forall>n \<in> set (supportChannelNames (v\<lparr>cannotLeave := cannotLeave v @ [Name ch]\<rparr>)).
          \<exists>c \<in> set L. Name c = n \<and> IsMember c
            \<and> channelIDs (v\<lparr>cannotLeave := cannotLeave v @ [Name ch]\<rparr>) n = Some (ID c)"
        by simp
      from Cons.IH [OF this sub] mem pre True show ?thesis by simp
    next
      case False
      from add_channel_ids [where Q = IsMember, OF Cons.prems(1) ch mem]
      have "\<forall>n \<in> set (supportChannelNames (add_channel ch v)).
          \<exists>c \<in> set L. Name c = n \<and> IsMember c \<and> channelIDs (add_channel ch v) n = Some (ID c)" .
      from Cons.IH [OF this sub] mem pre False show ?thesis by simp
    qed
  qed
qed

lemma joinSuppportCmd_select_ids:
  "\<forall>n \<in> set (sort (supportChannelNames (joinSuppportCmd_select L))).
     \<exists>c \<in> set L. Name c = n \<and> \<not> IsMember c
       \<and> lookup (channelIDs (joinSuppportCmd_select L)) n = ID c"
  using join_select_ids [of no_selection L L]
  by (fastforce simp: joinSuppportCmd_select_def no_selection_def lookup_def)

lemma leaveSuppportCmd_select_ids:
  "\<forall>n \<in> set (sort (supportChannelNames (leaveSuppportCmd_select L))).
     \<exists>c \<in> set L. Name c = n \<and> IsMember c
       \<and> lookup (channelIDs (leaveSuppportCmd_select L)) n = ID c"
  using leave_select_ids [of no_selection L L]
  by (fastforce simp: leaveSuppportCmd_select_def no_selection_def lookup_def)

section \<open>What the loops over the names do\<close>

lemma Printf_simps [simp]:
  "events (Printf l s) = events s"
  "world (Printf l s) = world s"
  "stdout (Printf l s) = stdout s @ [l]"
  by (simp_all add: Printf_def)

lemma record_effect_simps [simp]:
  "events (record_effect c r w s) = events s @ [(c, r)]"
  "world (record_effect c r w s) = w"
  "stdout (record_effect c r w s) = stdout s"
  by (simp_all add: record_effect_def)

lemma print_each_simps [simp]:
  "events (print_each xs s) = events s"
  "world (print_each xs s) = world s"
  "stdout (print_each xs s) = stdout s @ map (\<lambda>x. x @ nl) xs"
  by (induction xs arbitrary: s) simp_all

lemma issued_append: "events s' = events s @ E \<Longrightarrow> issued s s' = E"
  by (simp add: issued_def)

lemma sort_eq_Nil [simp]: "sort xs = [] \<longleftrightarrow> xs = []"
  using length_sort [of "\<lambda>x. x" xs] by (cases xs) auto

lemma aborted_at_0: "aborted_at f (n # ns) 0 e = [(f n, Some e)]"
  by (simp add: aborted_at_def)

lemma aborted_at_Suc: "aborted_at f (n # ns) (Suc k) e = (f n, None) # aborted_at f ns k e"
  by (simp add: aborted_at_def)

lemma fst_completed [simp]: "map fst (completed f names) = map f names"
  by (simp add: completed_def o_def)

lemma fst_aborted_at [simp]:
  "k < length names \<Longrightarrow> map fst (aborted_at f names k e) = map f (take (Suc k) names)"
  by (simp add: aborted_at_def o_def take_Suc_conv_app_nth)

lemma snd_completed [simp]: "x \<in> set (completed f names) \<Longrightarrow> snd x = None"
  by (auto simp: completed_def)

lemma aborted_at_not_Nil [simp]: "aborted_at f names k e \<noteq> []"
  by (simp add: aborted_at_def)

lemma filter_map_all: "(\<And>x. P (f x)) \<Longrightarrow> filter P (map f xs) = map f xs"
  by (induction xs) simp_all

lemma filter_map_none: "(\<And>x. \<not> P (f x)) \<Longrightarrow> filter P (map f xs) = []"
  by (induction xs) simp_all

lemma mark_of_kind [simp]:
  "mutating (mark_of ids ts n)" "is_mark (mark_of ids ts n)" "\<not> is_join (mark_of ids ts n)"
  "\<not> is_leave (mark_of ids ts n)" "\<not> is_clock (mark_of ids ts n)"
  by (simp_all add: mark_of_def)

lemma leave_of_kind [simp]:
  "mutating (leave_of ids n)" "is_leave (leave_of ids n)" "\<not> is_join (leave_of ids n)"
  "\<not> is_mark (leave_of ids n)" "\<not> is_clock (leave_of ids n)"
  by (simp_all add: leave_of_def)

lemma only_joins [simp]:
  "x \<in> set (completed JoinChannel ns) \<Longrightarrow> is_join (fst x)"
  "x \<in> set (aborted_at JoinChannel ns k e) \<Longrightarrow> is_join (fst x)"
  by (auto simp: completed_def aborted_at_def)

lemma only_leaves [simp]:
  "x \<in> set (completed (leave_of ids) ns) \<Longrightarrow> is_leave (fst x)"
  "x \<in> set (aborted_at (leave_of ids) ns k e) \<Longrightarrow> is_leave (fst x)"
  by (auto simp: completed_def aborted_at_def)

lemma some_failed_aborted: "(\<exists>x \<in> set (aborted_at f ns k e). snd x \<noteq> None) = True"
  by (simp add: aborted_at_def)

lemma none_failed_completed: "(\<exists>x \<in> set (completed f ns). snd x \<noteq> None) = False"
  by (auto simp: completed_def)




lemma no_leave_in:
  assumes "\<And>n. \<not> is_leave (f n)"
  shows "(\<forall>x \<in> set (aborted_at f ns k e). \<not> is_leave (fst x)) = True"
    and "(\<forall>x \<in> set (completed f ns). \<not> is_leave (fst x)) = True"
  using assms by (auto simp: aborted_at_def completed_def dest: in_set_takeD)

lemma no_join_in:
  assumes "\<And>n. \<not> is_join (f n)"
  shows "(\<forall>x \<in> set (aborted_at f ns k e). \<not> is_join (fst x)) = True"
    and "(\<forall>x \<in> set (completed f ns). \<not> is_join (fst x)) = True"
  using assms by (auto simp: aborted_at_def completed_def dest: in_set_takeD)

text \<open>The three loops of the source are instances of \<open>each\<close>.\<close>

lemma join_each_each:
  "join_each cl names s =
     each (JoinChannelContext cl) JoinChannel (\<lambda>n. ''Joined '' @ n @ nl) names s"
  by (induction names arbitrary: s) (simp_all add: Let_def split: prod.splits option.splits)

lemma mark_each_each:
  "mark_each cl ids ts names s =
     each (\<lambda>n. SetChannelReadMarkContext cl (lookup ids n) ts) (mark_of ids ts)
       (\<lambda>n. n @ '' is marked as read.'' @ nl) names s"
  by (induction names arbitrary: s)
     (simp_all add: mark_of_def Let_def split: prod.splits option.splits)

lemma leave_each_each:
  "leave_each cl ids names s =
     each (\<lambda>n. LeaveChannelContext cl (lookup ids n)) (leave_of ids)
       (\<lambda>n. ''Left '' @ n @ nl) names s"
  by (induction names arbitrary: s)
     (simp_all add: leave_of_def Let_def split: prod.splits option.splits)

text \<open>A loop ends after its last name, or at the first call that fails.\<close>

lemma each_events:
  "each call f msg names s = (r, s') \<Longrightarrow>
     (r = None \<and> events s' = events s @ completed f names) \<or>
     (\<exists>k e. k < length names \<and> r = Some e \<and> events s' = events s @ aborted_at f names k e)"
proof (induction names arbitrary: s)
  case Nil
  then show ?case by (simp add: completed_def)
next
  case (Cons n ns)
  obtain err w where call: "call n (world s) = (err, w)"
    by (cases "call n (world s)")
  show ?case
  proof (cases err)
    case (Some e)
    with Cons.prems call have "r = Some e" "events s' = events s @ [(f n, Some e)]"
      by auto
    then have "0 < length (n # ns) \<and> r = Some e
        \<and> events s' = events s @ aborted_at f (n # ns) 0 e"
      by (simp add: aborted_at_0)
    then show ?thesis by blast
  next
    case None
    let ?s1 = "Printf (msg n) (record_effect (f n) None w s)"
    from Cons.prems call None have rest: "each call f msg ns ?s1 = (r, s')"
      by simp
    from Cons.IH [OF rest] show ?thesis
    proof
      assume "r = None \<and> events s' = events ?s1 @ completed f ns"
      then show ?thesis by (simp add: completed_def)
    next
      assume "\<exists>k e. k < length ns \<and> r = Some e \<and> events s' = events ?s1 @ aborted_at f ns k e"
      then obtain k e where
        "k < length ns" "r = Some e" "events s' = events ?s1 @ aborted_at f ns k e"
        by blast
      then have "Suc k < length (n # ns) \<and> r = Some e \<and>
          events s' = events s @ aborted_at f (n # ns) (Suc k) e"
        by (simp add: aborted_at_Suc)
      then show ?thesis by blast
    qed
  qed
qed

text \<open>A loop that succeeds prints one line per name.\<close>

lemma each_stdout:
  "each call f msg names s = (None, s') \<Longrightarrow> stdout s' = stdout s @ map msg names"
proof (induction names arbitrary: s)
  case Nil
  then show ?case by simp
next
  case (Cons n ns)
  obtain err w where call: "call n (world s) = (err, w)"
    by (cases "call n (world s)")
  with Cons.prems have ok: "err = None"
    by (cases err) auto
  with Cons.prems call
  have "each call f msg ns (Printf (msg n) (record_effect (f n) None w s)) = (None, s')"
    by simp
  from Cons.IH [OF this] show ?case by simp
qed

section \<open>The runs of the two commands, by the return they leave through\<close>

lemma joinSuppportCmd_exec_empty:
  assumes "supportChannelNames (joinSuppportCmd_select L) = []"
  shows "joinSuppportCmd_exec cl fl L s =
     (None, Printf (''There are no support channels left for you to join.'' @ nl) (Printf rule_line s))"
  using assms by (simp add: joinSuppportCmd_exec_def)

lemma leaveSuppportCmd_exec_empty:
  assumes "supportChannelNames (leaveSuppportCmd_select L) = []"
  shows "leaveSuppportCmd_exec cl fl L s =
     (None, Printf (''There are no support channels left for you to leave.'' @ nl) (Printf rule_line s))"
  using assms by (simp add: leaveSuppportCmd_exec_def)

lemma joinSuppportCmd_exec_dry:
  assumes "dryRun fl"
  shows "events (snd (joinSuppportCmd_exec cl fl L s)) = events s"
    and "fst (joinSuppportCmd_exec cl fl L s) = None"
  using assms by (simp_all add: joinSuppportCmd_exec_def Let_def)

lemma leaveSuppportCmd_exec_dry:
  assumes "dryRun fl"
  shows "events (snd (leaveSuppportCmd_exec cl fl L s)) = events s"
    and "fst (leaveSuppportCmd_exec cl fl L s) = None"
  using assms by (simp_all add: leaveSuppportCmd_exec_def Let_def)

lemma joinSuppportCmd_exec_live:
  assumes live: "\<not> dryRun fl"
    and run: "joinSuppportCmd_exec cl fl L s = (r, s')"
    and sel: "supportChannelNames (joinSuppportCmd_select L) \<noteq> []"
  defines "names \<equiv> sort (supportChannelNames (joinSuppportCmd_select L))"
    and "ids \<equiv> channelIDs (joinSuppportCmd_select L)"
  shows "(\<exists>k e. k < length names \<and> r = Some e \<and>
            events s' = events s @ aborted_at JoinChannel names k e)
       \<or> (\<exists>t. (r = None \<and>
                 events s' = events s @ completed JoinChannel names @
                   [(Sleep 5, None), (Now t, None)] @ completed (mark_of ids (Sprintf_d t)) names)
             \<or> (\<exists>k e. k < length names \<and> r = Some e \<and>
                 events s' = events s @ completed JoinChannel names @
                   [(Sleep 5, None), (Now t, None)] @ aborted_at (mark_of ids (Sprintf_d t)) names k e))"
proof -
  let ?s2 = "print_each names
     (Printf (''You will be joining the following channels:'' @ nl) (Printf rule_line s))"
  obtain r1 s3 where j: "join_each cl names ?s2 = (r1, s3)"
    by (cases "join_each cl names ?s2")
  from j have tr: "(r1 = None \<and> events s3 = events s @ completed JoinChannel names) \<or>
     (\<exists>k e. k < length names \<and> r1 = Some e \<and>
        events s3 = events s @ aborted_at JoinChannel names k e)"
    using each_events [of "JoinChannelContext cl" JoinChannel _ names ?s2 r1 s3]
    by (simp add: join_each_each)
  show ?thesis
  proof (cases r1)
    case (Some e)
    with run live sel j have "r = Some e" "s' = s3"
      by (simp_all add: joinSuppportCmd_exec_def Let_def names_def)
    with tr Some show ?thesis by auto
  next
    case None
    let ?s4 = "Printf (''Marking all the joined channels as read.'' @ nl) (Printf rule_line s3)"
    let ?s5 = "record_effect (Sleep 5) None (Pause cl 5 (world ?s4)) ?s4"
    obtain t w where u: "Unix cl (world ?s5) = (t, w)"
      by (cases "Unix cl (world ?s5)")
    let ?s7 = "Printf (Sprintf_d t @ nl) (record_effect (Now t) None w ?s5)"
    obtain r2 s8 where m: "mark_each cl ids (Sprintf_d t) names ?s7 = (r2, s8)"
      by (cases "mark_each cl ids (Sprintf_d t) names ?s7")
    from tr None have e3: "events s3 = events s @ completed JoinChannel names"
      by simp
    have e7: "events ?s7 = events s @ completed JoinChannel names @ [(Sleep 5, None), (Now t, None)]"
      by (simp add: e3)
    from m have tr2:
      "(r2 = None \<and> events s8 = events ?s7 @ completed (mark_of ids (Sprintf_d t)) names) \<or>
       (\<exists>k e. k < length names \<and> r2 = Some e \<and>
          events s8 = events ?s7 @ aborted_at (mark_of ids (Sprintf_d t)) names k e)"
      using each_events [of _ "mark_of ids (Sprintf_d t)" _ names ?s7 r2 s8]
      by (simp add: mark_each_each)
    from run live sel j None u m have res: "r = r2" "events s' = events s8"
      by (auto simp add: joinSuppportCmd_exec_def Let_def names_def ids_def split: option.splits)
    from tr2 show ?thesis
      unfolding res e7 by auto
  qed
qed

lemma leaveSuppportCmd_exec_live:
  assumes live: "\<not> dryRun fl"
    and run: "leaveSuppportCmd_exec cl fl L s = (r, s')"
  defines "names \<equiv> sort (supportChannelNames (leaveSuppportCmd_select L))"
    and "ids \<equiv> channelIDs (leaveSuppportCmd_select L)"
  shows "(r = None \<and> events s' = events s @ completed (leave_of ids) names)
       \<or> (\<exists>k e. k < length names \<and> r = Some e \<and>
            events s' = events s @ aborted_at (leave_of ids) names k e)"
proof (cases "supportChannelNames (leaveSuppportCmd_select L) = []")
  case True
  with run show ?thesis
    by (auto simp: leaveSuppportCmd_exec_empty names_def completed_def)
next
  case False
  let ?s2 = "Printf rule_line (print_each names
     (Printf (''You will be leaving the following channels:'' @ nl) (Printf rule_line s)))"
  obtain r1 s3 where l: "leave_each cl ids names ?s2 = (r1, s3)"
    by (cases "leave_each cl ids names ?s2")
  from l have tr: "(r1 = None \<and> events s3 = events s @ completed (leave_of ids) names) \<or>
     (\<exists>k e. k < length names \<and> r1 = Some e \<and>
        events s3 = events s @ aborted_at (leave_of ids) names k e)"
    using each_events [of _ "leave_of ids" _ names ?s2 r1 s3]
    by (simp add: leave_each_each)
  from run live False l have "r = r1" "events s' = events s3"
    by (auto simp add: leaveSuppportCmd_exec_def Let_def names_def ids_def split: option.splits)
  with tr show ?thesis by simp
qed

lemma joinSuppportCmd_exec_cases:
  assumes run: "joinSuppportCmd_exec cl fl L s = (r, s')"
  defines "names \<equiv> sort (supportChannelNames (joinSuppportCmd_select L))"
    and "ids \<equiv> channelIDs (joinSuppportCmd_select L)"
  shows "(r = None \<and> issued s s' = [] \<and> (names = [] \<or> dryRun fl))
       \<or> (\<not> dryRun fl \<and> names \<noteq> [] \<and>
           (\<exists>k e. k < length names \<and> r = Some e \<and> issued s s' = aborted_at JoinChannel names k e))
       \<or> (\<not> dryRun fl \<and> names \<noteq> [] \<and>
           (\<exists>t. r = None \<and>
                 issued s s' = completed JoinChannel names @
                   [(Sleep 5, None), (Now t, None)] @ completed (mark_of ids (Sprintf_d t)) names))
       \<or> (\<not> dryRun fl \<and> names \<noteq> [] \<and>
           (\<exists>t k e. k < length names \<and> r = Some e \<and>
                 issued s s' = completed JoinChannel names @
                   [(Sleep 5, None), (Now t, None)] @ aborted_at (mark_of ids (Sprintf_d t)) names k e))"
proof (cases "supportChannelNames (joinSuppportCmd_select L) = []")
  case True
  with run have "r = None" "events s' = events s"
    by (auto simp: joinSuppportCmd_exec_empty)
  with True show ?thesis by (simp add: issued_def names_def)
next
  case False
  then have ne: "names \<noteq> []"
    by (simp add: names_def)
  show ?thesis
  proof (cases "dryRun fl")
    case True
    from run joinSuppportCmd_exec_dry [OF True, of cl L s]
    have "r = None" "events s' = events s"
      by simp_all
    then show ?thesis using True by (simp add: issued_def)
  next
    case live: False
    from joinSuppportCmd_exec_live [OF live run False]
    show ?thesis
      unfolding names_def [symmetric] ids_def [symmetric]
      using live ne by (auto dest!: issued_append)
  qed
qed

lemma leaveSuppportCmd_exec_cases:
  assumes run: "leaveSuppportCmd_exec cl fl L s = (r, s')"
  defines "names \<equiv> sort (supportChannelNames (leaveSuppportCmd_select L))"
    and "ids \<equiv> channelIDs (leaveSuppportCmd_select L)"
  shows "(r = None \<and> issued s s' = [] \<and> (names = [] \<or> dryRun fl))
       \<or> (\<not> dryRun fl \<and> r = None \<and> issued s s' = completed (leave_of ids) names)
       \<or> (\<not> dryRun fl \<and>
           (\<exists>k e. k < length names \<and> r = Some e \<and> issued s s' = aborted_at (leave_of ids) names k e))"
proof (cases "dryRun fl")
  case True
  from run leaveSuppportCmd_exec_dry [OF True, of cl L s]
  have "r = None" "events s' = events s"
    by simp_all
  then show ?thesis using True by (simp add: issued_def)
next
  case live: False
  from leaveSuppportCmd_exec_live [OF live run]
  show ?thesis
    unfolding names_def [symmetric] ids_def [symmetric]
    using live by (auto dest!: issued_append)
qed

section \<open>Concrete runs against the scripted client\<close>

lemma scripted_simps [simp]:
  "JoinChannelContext (scripted pages failing) name w =
     (if name \<in> set failing then Some (ApiError name) else None, w)"
  "LeaveChannelContext (scripted pages failing) channelID w =
     (if channelID \<in> set failing then Some (ApiError channelID) else None, w)"
  "SetChannelReadMarkContext (scripted pages failing) channelID ts w =
     (if channelID \<in> set failing then Some (ApiError channelID) else None, w)"
  "Pause (scripted pages failing) n w = w + int n"
  "Unix (scripted pages failing) w = (w, w)"
  "AuthTestContext (scripted pages failing) w = (Inr (''operator'', ''roach''), w)"
  "GetConversationsContext (scripted pages failing) cursor w =
     (case map_of pages cursor of None \<Rightarrow> Inl (ApiError ''invalid_cursor'') | Some r \<Rightarrow> Inr r, w)"
  by (simp_all add: scripted_def)

lemma Sprintf_d_105: "Sprintf_d 105 = ''105''"
  by code_simp

lemma scenario_D_selected:
  "supportChannelNames (joinSuppportCmd_select scenario_D) = [''_b'', ''_a'']"
  "sort (supportChannelNames (joinSuppportCmd_select scenario_D)) = [''_a'', ''_b'']"
  "lookup (channelIDs (joinSuppportCmd_select scenario_D)) ''_a'' = ''C3''"
  "lookup (channelIDs (joinSuppportCmd_select scenario_D)) ''_b'' = ''C2''"
  by (simp_all add: scenario_D_def chan_def joinSuppportCmd_select_def no_selection_def
        HasPrefix_def lookup_def)

lemma scenario_leave_selected:
  "supportChannelNames (leaveSuppportCmd_select scenario_leave) = [''_beta'', ''_alpha'']"
  "lookup (channelIDs (leaveSuppportCmd_select scenario_leave)) ''_alpha'' = ''C5''"
  "lookup (channelIDs (leaveSuppportCmd_select scenario_leave)) ''_beta'' = ''C2''"
  by (simp_all add: scenario_leave_def chan_def leaveSuppportCmd_select_def no_selection_def
        HasPrefix_def lookup_def)

lemma scenario_B_selected:
  "supportChannelNames (leaveSuppportCmd_select scenario_B) = []"
  "cannotLeave (leaveSuppportCmd_select scenario_B) = [''_acme'']"
  by (simp_all add: scenario_B_def chan_def leaveSuppportCmd_select_def no_selection_def
        HasPrefix_def)

text \<open>Scenario D: both joins succeed, then the second \<^verbatim>\<open>SetChannelReadMark\<close> fails.\<close>

lemma scenario_D_mark_fails:
  "fst (joinSuppportCmd_exec (scripted [] [''C2'']) live scenario_D (fresh 100)) =
     Some (ApiError ''C2'')"
  "issued (fresh 100) (snd (joinSuppportCmd_exec (scripted [] [''C2'']) live scenario_D (fresh 100))) =
     [(JoinChannel ''_a'', None), (JoinChannel ''_b'', None), (Sleep 5, None), (Now 105, None),
      (SetChannelReadMark ''C3'' ''105'', None),
      (SetChannelReadMark ''C2'' ''105'', Some (ApiError ''C2''))]"
  by (simp_all add: joinSuppportCmd_exec_def Let_def scenario_D_selected live_def
        fresh_def issued_def Sprintf_d_105 record_effect_def Printf_def)


lemma scenario_D_succeeds:
  "fst (joinSuppportCmd_exec (scripted [] []) live scenario_D (fresh 100)) = None"
  "issued (fresh 100) (snd (joinSuppportCmd_exec (scripted [] []) live scenario_D (fresh 100))) =
     [(JoinChannel ''_a'', None), (JoinChannel ''_b'', None), (Sleep 5, None), (Now 105, None),
      (SetChannelReadMark ''C3'' ''105'', None), (SetChannelReadMark ''C2'' ''105'', None)]"
  by (simp_all add: joinSuppportCmd_exec_def Let_def scenario_D_selected live_def
        fresh_def issued_def Sprintf_d_105 record_effect_def Printf_def)

lemma scenario_leave_fails:
  "fst (leaveSuppportCmd_exec (scripted [] [''C2'']) live scenario_leave (fresh 100)) =
     Some (ApiError ''C2'')"
  "issued (fresh 100) (snd (leaveSuppportCmd_exec (scripted [] [''C2'']) live scenario_leave (fresh 100))) =
     [(LeaveChannel ''C5'', None), (LeaveChannel ''C2'', Some (ApiError ''C2''))]"
  by (simp_all add: leaveSuppportCmd_exec_def Let_def scenario_leave_selected scenario_leave_names
        live_def fresh_def issued_def record_effect_def Printf_def)

lemma scenario_leave_succeeds:
  "fst (leaveSuppportCmd_exec (scripted [] []) live scenario_leave (fresh 100)) = None"
  "issued (fresh 100) (snd (leaveSuppportCmd_exec (scripted [] []) live scenario_leave (fresh 100))) =
     [(LeaveChannel ''C5'', None), (LeaveChannel ''C2'', None)]"
  by (simp_all add: leaveSuppportCmd_exec_def Let_def scenario_leave_selected scenario_leave_names
        live_def fresh_def issued_def record_effect_def Printf_def)

lemma run_eq: "fst p = a \<Longrightarrow> p = (a, snd p)"
  by (cases p) simp

section \<open>The order of the names that the commands print and act on\<close>

lemma count_list_insort: "count_list (insort a xs) x = count_list (a # xs) x"
  by (induction xs) auto

lemma count_list_sort: "count_list (sort xs) x = count_list xs x"
  by (induction xs) (simp_all add: count_list_insort)

lemma each_stdout_grows:
  "each call f msg names s = (r, s') \<Longrightarrow> \<exists>P. stdout s' = stdout s @ P"
proof (induction names arbitrary: s)
  case Nil
  then show ?case by simp
next
  case (Cons n ns)
  obtain err w where call: "call n (world s) = (err, w)"
    by (cases "call n (world s)")
  show ?case
  proof (cases err)
    case (Some e)
    with Cons.prems call have "stdout s' = stdout s @ []"
      by auto
    then show ?thesis by blast
  next
    case None
    with Cons.prems call
    have "each call f msg ns (Printf (msg n) (record_effect (f n) None w s)) = (r, s')"
      by simp
    from Cons.IH [OF this] obtain P where "stdout s' = stdout s @ ([msg n] @ P)"
      by auto
    then show ?thesis by blast
  qed
qed

text \<open>
  Before it looks at the dry-run flag, a command with a selection prints the separator,
  the heading and the names, one per chunk, in the order that \<^verbatim>\<open>sort.Strings\<close> left.
\<close>

lemma joinSuppportCmd_exec_plan:
  assumes sel: "supportChannelNames (joinSuppportCmd_select L) \<noteq> []"
  shows "\<exists>rest. printed s (snd (joinSuppportCmd_exec cl fl L s)) =
     [rule_line, ''You will be joining the following channels:'' @ nl]
       @ map (\<lambda>n. n @ nl) (sort (supportChannelNames (joinSuppportCmd_select L))) @ rest"
proof -
  let ?names = "sort (supportChannelNames (joinSuppportCmd_select L))"
  let ?ids = "channelIDs (joinSuppportCmd_select L)"
  let ?plan = "[rule_line, ''You will be joining the following channels:'' @ nl]
       @ map (\<lambda>n. n @ nl) ?names"
  let ?s2 = "print_each ?names
     (Printf (''You will be joining the following channels:'' @ nl) (Printf rule_line s))"
  have s2: "stdout ?s2 = stdout s @ ?plan"
    by simp
  have "\<exists>rest. stdout (snd (joinSuppportCmd_exec cl fl L s)) = stdout s @ ?plan @ rest"
  proof (cases "dryRun fl")
    case True
    with sel have "stdout (snd (joinSuppportCmd_exec cl fl L s)) =
        stdout s @ ?plan @ [rule_line, ''Dry run only, no joins were performed.'' @ nl]"
      by (simp add: joinSuppportCmd_exec_def Let_def)
    then show ?thesis by blast
  next
    case False
    obtain r1 s3 where j: "join_each cl ?names ?s2 = (r1, s3)"
      by (cases "join_each cl ?names ?s2")
    from j obtain P where P: "stdout s3 = stdout ?s2 @ P"
      using each_stdout_grows [of "JoinChannelContext cl" JoinChannel _ ?names ?s2 r1 s3]
      by (auto simp: join_each_each)
    show ?thesis
    proof (cases r1)
      case (Some e)
      with sel False j have "snd (joinSuppportCmd_exec cl fl L s) = s3"
        by (simp add: joinSuppportCmd_exec_def Let_def)
      with P s2 have "stdout (snd (joinSuppportCmd_exec cl fl L s)) = stdout s @ ?plan @ P"
        by simp
      then show ?thesis by blast
    next
      case None
      let ?s4 = "Printf (''Marking all the joined channels as read.'' @ nl) (Printf rule_line s3)"
      let ?s5 = "record_effect (Sleep 5) None (Pause cl 5 (world ?s4)) ?s4"
      obtain t w where u: "Unix cl (world ?s5) = (t, w)"
        by (cases "Unix cl (world ?s5)")
      let ?s7 = "Printf (Sprintf_d t @ nl) (record_effect (Now t) None w ?s5)"
      obtain r2 s8 where m: "mark_each cl ?ids (Sprintf_d t) ?names ?s7 = (r2, s8)"
        by (cases "mark_each cl ?ids (Sprintf_d t) ?names ?s7")
      from m obtain Q where Q: "stdout s8 = stdout ?s7 @ Q"
        using each_stdout_grows [of _ "mark_of ?ids (Sprintf_d t)" _ ?names ?s7 r2 s8]
        by (auto simp: mark_each_each)
      from sel False j None u m
      have "\<exists>R. stdout (snd (joinSuppportCmd_exec cl fl L s)) = stdout s8 @ R"
        by (cases r2) (simp_all add: joinSuppportCmd_exec_def Let_def)
      then obtain R where "stdout (snd (joinSuppportCmd_exec cl fl L s)) = stdout s8 @ R"
        by blast
      with Q P s2 have "stdout (snd (joinSuppportCmd_exec cl fl L s)) =
          stdout s @ ?plan @ (P @ [rule_line, ''Marking all the joined channels as read.'' @ nl,
            Sprintf_d t @ nl] @ Q @ R)"
        by simp
      then show ?thesis by blast
    qed
  qed
  then show ?thesis
    by (auto simp: printed_def)
qed

lemma leaveSuppportCmd_exec_plan:
  assumes sel: "supportChannelNames (leaveSuppportCmd_select L) \<noteq> []"
  shows "\<exists>rest. printed s (snd (leaveSuppportCmd_exec cl fl L s)) =
     [rule_line, ''You will be leaving the following channels:'' @ nl]
       @ map (\<lambda>n. n @ nl) (sort (supportChannelNames (leaveSuppportCmd_select L))) @ rest"
proof -
  let ?names = "sort (supportChannelNames (leaveSuppportCmd_select L))"
  let ?ids = "channelIDs (leaveSuppportCmd_select L)"
  let ?plan = "[rule_line, ''You will be leaving the following channels:'' @ nl]
       @ map (\<lambda>n. n @ nl) ?names"
  let ?s2 = "Printf rule_line (print_each ?names
     (Printf (''You will be leaving the following channels:'' @ nl) (Printf rule_line s)))"
  have s2: "stdout ?s2 = stdout s @ ?plan @ [rule_line]"
    by simp
  have "\<exists>rest. stdout (snd (leaveSuppportCmd_exec cl fl L s)) = stdout s @ ?plan @ rest"
  proof (cases "dryRun fl")
    case True
    with sel have "stdout (snd (leaveSuppportCmd_exec cl fl L s)) =
        stdout s @ ?plan @ ([rule_line, manual_header]
          @ map (\<lambda>x. x @ nl) (cannotLeave (leaveSuppportCmd_select L))
          @ [nl @ ''Dry run only, no exits were performed.'' @ nl])"
      by (simp add: leaveSuppportCmd_exec_def Let_def)
    then show ?thesis by blast
  next
    case False
    obtain r1 s3 where l: "leave_each cl ?ids ?names ?s2 = (r1, s3)"
      by (cases "leave_each cl ?ids ?names ?s2")
    from l obtain P where P: "stdout s3 = stdout ?s2 @ P"
      using each_stdout_grows [of _ "leave_of ?ids" _ ?names ?s2 r1 s3]
      by (auto simp: leave_each_each)
    from sel False l
    have "\<exists>R. stdout (snd (leaveSuppportCmd_exec cl fl L s)) = stdout s3 @ R"
      by (cases r1) (simp_all add: leaveSuppportCmd_exec_def Let_def)
    then obtain R where "stdout (snd (leaveSuppportCmd_exec cl fl L s)) = stdout s3 @ R"
      by blast
    with P s2 have "stdout (snd (leaveSuppportCmd_exec cl fl L s)) =
        stdout s @ ?plan @ ([rule_line] @ P @ R)"
      by simp
    then show ?thesis by blast
  qed
  then show ?thesis
    by (auto simp: printed_def)
qed

lemma leaveSuppportCmd_exec_dry_printed:
  assumes sel: "supportChannelNames (leaveSuppportCmd_select L) \<noteq> []" and dry: "dryRun fl"
  shows "printed s (snd (leaveSuppportCmd_exec cl fl L s)) =
     [rule_line, ''You will be leaving the following channels:'' @ nl]
       @ map (\<lambda>n. n @ nl) (sort (supportChannelNames (leaveSuppportCmd_select L)))
       @ [rule_line, manual_header]
       @ map (\<lambda>x. x @ nl) (cannotLeave (leaveSuppportCmd_select L))
       @ [nl @ ''Dry run only, no exits were performed.'' @ nl]"
  using assms by (simp add: leaveSuppportCmd_exec_def Let_def printed_def)

text \<open>The joins, and the leaves, that a run issued follow the sorted names from the first on.\<close>

lemma joinSuppportCmd_exec_joins:
  "\<exists>k \<le> length (sort (supportChannelNames (joinSuppportCmd_select L))).
     filter is_join (map fst (issued s (snd (joinSuppportCmd_exec cl fl L s)))) =
       map JoinChannel (take k (sort (supportChannelNames (joinSuppportCmd_select L))))"
proof -
  let ?names = "sort (supportChannelNames (joinSuppportCmd_select L))"
  let ?E = "issued s (snd (joinSuppportCmd_exec cl fl L s))"
  have run: "joinSuppportCmd_exec cl fl L s =
      (fst (joinSuppportCmd_exec cl fl L s), snd (joinSuppportCmd_exec cl fl L s))"
    by simp
  from joinSuppportCmd_exec_cases [OF run] consider
      (none) "?E = []"
    | (join) k e where "k < length ?names" "?E = aborted_at JoinChannel ?names k e"
    | (whole) t where "?E = completed JoinChannel ?names @
        [(Sleep 5, None), (Now t, None)]
        @ completed (mark_of (channelIDs (joinSuppportCmd_select L)) (Sprintf_d t)) ?names"
    | (mark) t k e where "k < length ?names" "?E = completed JoinChannel ?names @
        [(Sleep 5, None), (Now t, None)]
        @ aborted_at (mark_of (channelIDs (joinSuppportCmd_select L)) (Sprintf_d t)) ?names k e"
    by (elim disjE exE conjE) blast+
  then show ?thesis
  proof cases
    case none
    then have "0 \<le> length ?names \<and> filter is_join (map fst ?E) = map JoinChannel (take 0 ?names)"
      by simp
    then show ?thesis by blast
  next
    case (join k e)
    then have "Suc k \<le> length ?names
        \<and> filter is_join (map fst ?E) = map JoinChannel (take (Suc k) ?names)"
      by (simp add: filter_map_all)
    then show ?thesis by blast
  next
    case (whole t)
    then have "length ?names \<le> length ?names
        \<and> filter is_join (map fst ?E) = map JoinChannel (take (length ?names) ?names)"
      by (simp add: filter_map_all filter_map_none)
    then show ?thesis by blast
  next
    case (mark t k e)
    then have "length ?names \<le> length ?names
        \<and> filter is_join (map fst ?E) = map JoinChannel (take (length ?names) ?names)"
      by (simp add: filter_map_all filter_map_none)
    then show ?thesis by blast
  qed
qed

lemma leaveSuppportCmd_exec_leaves:
  "\<exists>k \<le> length (sort (supportChannelNames (leaveSuppportCmd_select L))).
     filter is_leave (map fst (issued s (snd (leaveSuppportCmd_exec cl fl L s)))) =
       map (leave_of (channelIDs (leaveSuppportCmd_select L)))
         (take k (sort (supportChannelNames (leaveSuppportCmd_select L))))"
proof -
  let ?names = "sort (supportChannelNames (leaveSuppportCmd_select L))"
  let ?ids = "channelIDs (leaveSuppportCmd_select L)"
  let ?E = "issued s (snd (leaveSuppportCmd_exec cl fl L s))"
  have run: "leaveSuppportCmd_exec cl fl L s =
      (fst (leaveSuppportCmd_exec cl fl L s), snd (leaveSuppportCmd_exec cl fl L s))"
    by simp
  from leaveSuppportCmd_exec_cases [OF run] consider
      (none) "?E = []"
    | (whole) "?E = completed (leave_of ?ids) ?names"
    | (leave) k e where "k < length ?names" "?E = aborted_at (leave_of ?ids) ?names k e"
    by (elim disjE exE conjE) blast+
  then show ?thesis
  proof cases
    case none
    then have "0 \<le> length ?names
        \<and> filter is_leave (map fst ?E) = map (leave_of ?ids) (take 0 ?names)"
      by simp
    then show ?thesis by blast
  next
    case whole
    then have "length ?names \<le> length ?names
        \<and> filter is_leave (map fst ?E) = map (leave_of ?ids) (take (length ?names) ?names)"
      by (simp add: filter_map_all)
    then show ?thesis by blast
  next
    case (leave k e)
    then have "Suc k \<le> length ?names
        \<and> filter is_leave (map fst ?E) = map (leave_of ?ids) (take (Suc k) ?names)"
      by (simp add: filter_map_all)
    then show ?thesis by blast
  qed
qed

lemma stuck_apart_from_leavable:
  "distinct (map Name L) \<Longrightarrow>
     set (map Name (filter stuck L)) \<inter> set (map Name (filter leavable L)) = {}"
  by (induction L) (auto simp: stuck_def leavable_def)

text \<open>
  C3, as the code has it. In either mode there is one list of names that the command
  works with: it holds the selected names, each as often as the selection loop took it;
  it is in ascending order; when it is not empty the command prints it, one name per
  chunk, after the separator and the heading, whatever the dry-run flag is; and the
  joins, or the leaves, that the run issues follow it from its first name on. A dry
  Leave run prints after it the names of \<open>cannotLeave\<close>. The loops append one name per
  selected channel and never compare a name with those already taken, so the list is
  free of duplicates, and apart from \<open>cannotLeave\<close>, when no two listed channels share a
  name.
\<close>

theorem ordered_names_sorted:
  "(\<exists>names.
       sorted names
     \<and> (\<forall>x. count_list names x = count_list (supportChannelNames (joinSuppportCmd_select L)) x)
     \<and> (names \<noteq> [] \<longrightarrow>
          (\<exists>rest. printed s (snd (joinSuppportCmd_exec cl fl L s)) =
             [rule_line, ''You will be joining the following channels:'' @ nl]
               @ map (\<lambda>n. n @ nl) names @ rest))
     \<and> (\<exists>k \<le> length names.
           filter is_join (map fst (issued s (snd (joinSuppportCmd_exec cl fl L s)))) =
             map JoinChannel (take k names))
     \<and> (distinct (map Name L) \<longrightarrow>
           distinct names \<and> set (cannotLeave (joinSuppportCmd_select L)) \<inter> set names = {}))
   \<and> (\<exists>names.
       sorted names
     \<and> (\<forall>x. count_list names x = count_list (supportChannelNames (leaveSuppportCmd_select L)) x)
     \<and> (names \<noteq> [] \<longrightarrow>
          (\<exists>rest. printed s (snd (leaveSuppportCmd_exec cl fl L s)) =
             [rule_line, ''You will be leaving the following channels:'' @ nl]
               @ map (\<lambda>n. n @ nl) names @ rest))
     \<and> (names \<noteq> [] \<and> dryRun fl \<longrightarrow>
           printed s (snd (leaveSuppportCmd_exec cl fl L s)) =
             [rule_line, ''You will be leaving the following channels:'' @ nl]
               @ map (\<lambda>n. n @ nl) names
               @ [rule_line, manual_header]
               @ map (\<lambda>x. x @ nl) (cannotLeave (leaveSuppportCmd_select L))
               @ [nl @ ''Dry run only, no exits were performed.'' @ nl])
     \<and> (\<exists>k \<le> length names.
           filter is_leave (map fst (issued s (snd (leaveSuppportCmd_exec cl fl L s)))) =
             map (leave_of (channelIDs (leaveSuppportCmd_select L))) (take k names))
     \<and> (distinct (map Name L) \<longrightarrow>
           distinct names \<and> set (cannotLeave (leaveSuppportCmd_select L)) \<inter> set names = {}))"
proof -
  let ?j = "sort (supportChannelNames (joinSuppportCmd_select L))"
  let ?l = "sort (supportChannelNames (leaveSuppportCmd_select L))"
  have j1: "sorted ?j" and l1: "sorted ?l"
    by simp_all
  have j2: "\<forall>x. count_list ?j x = count_list (supportChannelNames (joinSuppportCmd_select L)) x"
    and l2: "\<forall>x. count_list ?l x = count_list (supportChannelNames (leaveSuppportCmd_select L)) x"
    by (simp_all add: count_list_sort)
  have j3: "?j \<noteq> [] \<longrightarrow>
          (\<exists>rest. printed s (snd (joinSuppportCmd_exec cl fl L s)) =
             [rule_line, ''You will be joining the following channels:'' @ nl]
               @ map (\<lambda>n. n @ nl) ?j @ rest)"
    using joinSuppportCmd_exec_plan [of L s cl fl] by simp
  have l3: "?l \<noteq> [] \<longrightarrow>
          (\<exists>rest. printed s (snd (leaveSuppportCmd_exec cl fl L s)) =
             [rule_line, ''You will be leaving the following channels:'' @ nl]
               @ map (\<lambda>n. n @ nl) ?l @ rest)"
    using leaveSuppportCmd_exec_plan [of L s cl fl] by simp
  have l4: "?l \<noteq> [] \<and> dryRun fl \<longrightarrow>
           printed s (snd (leaveSuppportCmd_exec cl fl L s)) =
             [rule_line, ''You will be leaving the following channels:'' @ nl]
               @ map (\<lambda>n. n @ nl) ?l
               @ [rule_line, manual_header]
               @ map (\<lambda>x. x @ nl) (cannotLeave (leaveSuppportCmd_select L))
               @ [nl @ ''Dry run only, no exits were performed.'' @ nl]"
    using leaveSuppportCmd_exec_dry_printed [of L fl s cl] by simp
  note j5 = joinSuppportCmd_exec_joins [of L s cl fl]
  note l5 = leaveSuppportCmd_exec_leaves [of L s cl fl]
  have j6: "distinct (map Name L) \<longrightarrow>
      distinct ?j \<and> set (cannotLeave (joinSuppportCmd_select L)) \<inter> set ?j = {}"
    by (simp add: joinSuppportCmd_select_names joinSuppportCmd_select_cannotLeave
          distinct_map_filter)
  have l6: "distinct (map Name L) \<longrightarrow>
      distinct ?l \<and> set (cannotLeave (leaveSuppportCmd_select L)) \<inter> set ?l = {}"
    using stuck_apart_from_leavable [of L]
    by (simp add: leaveSuppportCmd_select_names leaveSuppportCmd_select_cannotLeave
          distinct_map_filter)
  from j1 j2 j3 j5 j6 have J: "\<exists>names.
       sorted names
     \<and> (\<forall>x. count_list names x = count_list (supportChannelNames (joinSuppportCmd_select L)) x)
     \<and> (names \<noteq> [] \<longrightarrow>
          (\<exists>rest. printed s (snd (joinSuppportCmd_exec cl fl L s)) =
             [rule_line, ''You will be joining the following channels:'' @ nl]
               @ map (\<lambda>n. n @ nl) names @ rest))
     \<and> (\<exists>k \<le> length names.
           filter is_join (map fst (issued s (snd (joinSuppportCmd_exec cl fl L s)))) =
             map JoinChannel (take k names))
     \<and> (distinct (map Name L) \<longrightarrow>
           distinct names \<and> set (cannotLeave (joinSuppportCmd_select L)) \<inter> set names = {})"
    by (intro exI [of _ ?j] conjI)
  from l1 l2 l3 l4 l5 l6 have Lv: "\<exists>names.
       sorted names
     \<and> (\<forall>x. count_list names x = count_list (supportChannelNames (leaveSuppportCmd_select L)) x)
     \<and> (names \<noteq> [] \<longrightarrow>
          (\<exists>rest. printed s (snd (leaveSuppportCmd_exec cl fl L s)) =
             [rule_line, ''You will be leaving the following channels:'' @ nl]
               @ map (\<lambda>n. n @ nl) names @ rest))
     \<and> (names \<noteq> [] \<and> dryRun fl \<longrightarrow>
           printed s (snd (leaveSuppportCmd_exec cl fl L s)) =
             [rule_line, ''You will be leaving the following channels:'' @ nl]
               @ map (\<lambda>n. n @ nl) names
               @ [rule_line, manual_header]
               @ map (\<lambda>x. x @ nl) (cannotLeave (leaveSuppportCmd_select L))
               @ [nl @ ''Dry run only, no exits were performed.'' @ nl])
     \<and> (\<exists>k \<le> length names.
           filter is_leave (map fst (issued s (snd (leaveSuppportCmd_exec cl fl L s)))) =
             map (leave_of (channelIDs (leaveSuppportCmd_select L))) (take k names))
     \<and> (distinct (map Name L) \<longrightarrow>
           distinct names \<and> set (cannotLeave (leaveSuppportCmd_select L)) \<inter> set names = {})"
    by (intro exI [of _ ?l] conjI)
  from J Lv show ?thesis ..
qed

lemma scenario_leave_joinable:
  "supportChannelNames (joinSuppportCmd_select scenario_leave) = [''_gamma'']"
  by (simp add: scenario_leave_def chan_def joinSuppportCmd_select_def no_selection_def
        HasPrefix_def)

lemma counted_not_Nil: "count_list names x = Suc n \<Longrightarrow> names \<noteq> []"
  by auto

theorem ordered_names_sorted_witness:
  "distinct (map Name scenario_leave)
   \<and> dryRun dry
   \<and> (\<exists>names. sorted names \<and> names \<noteq> [] \<and> distinct names
        \<and> (\<exists>rest. printed (fresh 100)
               (snd (joinSuppportCmd_exec (scripted [] []) dry scenario_leave (fresh 100))) =
             [rule_line, ''You will be joining the following channels:'' @ nl]
               @ map (\<lambda>n. n @ nl) names @ rest))
   \<and> (\<exists>names. sorted names \<and> names \<noteq> [] \<and> distinct names
        \<and> set (cannotLeave (leaveSuppportCmd_select scenario_leave)) \<inter> set names = {}
        \<and> printed (fresh 100)
               (snd (leaveSuppportCmd_exec (scripted [] []) dry scenario_leave (fresh 100))) =
             [rule_line, ''You will be leaving the following channels:'' @ nl]
               @ map (\<lambda>n. n @ nl) names
               @ [rule_line, manual_header]
               @ map (\<lambda>x. x @ nl) (cannotLeave (leaveSuppportCmd_select scenario_leave))
               @ [nl @ ''Dry run only, no exits were performed.'' @ nl])"
proof -
  have d: "distinct (map Name scenario_leave)"
    by (simp add: scenario_leave_def chan_def)
  have dr: "dryRun dry"
    by (simp add: dry_def)
  note t = ordered_names_sorted [where L = scenario_leave and s = "fresh 100"
      and cl = "scripted [] []" and fl = dry]
  from t obtain ns where ns: "sorted ns"
    "\<forall>x. count_list ns x = count_list (supportChannelNames (joinSuppportCmd_select scenario_leave)) x"
    "ns \<noteq> [] \<longrightarrow>
          (\<exists>rest. printed (fresh 100)
               (snd (joinSuppportCmd_exec (scripted [] []) dry scenario_leave (fresh 100))) =
             [rule_line, ''You will be joining the following channels:'' @ nl]
               @ map (\<lambda>n. n @ nl) ns @ rest)"
    "distinct (map Name scenario_leave) \<longrightarrow>
       distinct ns \<and> set (cannotLeave (joinSuppportCmd_select scenario_leave)) \<inter> set ns = {}"
    by blast
  from ns(2) have "count_list ns ''_gamma'' = Suc 0"
    by (simp add: scenario_leave_joinable)
  then have ne: "ns \<noteq> []"
    by (rule counted_not_Nil)
  from ns ne d have J: "\<exists>names. sorted names \<and> names \<noteq> [] \<and> distinct names
        \<and> (\<exists>rest. printed (fresh 100)
               (snd (joinSuppportCmd_exec (scripted [] []) dry scenario_leave (fresh 100))) =
             [rule_line, ''You will be joining the following channels:'' @ nl]
               @ map (\<lambda>n. n @ nl) names @ rest)"
    by blast
  from t obtain ms where ms: "sorted ms"
    "\<forall>x. count_list ms x = count_list (supportChannelNames (leaveSuppportCmd_select scenario_leave)) x"
    "ms \<noteq> [] \<and> dryRun dry \<longrightarrow>
           printed (fresh 100)
               (snd (leaveSuppportCmd_exec (scripted [] []) dry scenario_leave (fresh 100))) =
             [rule_line, ''You will be leaving the following channels:'' @ nl]
               @ map (\<lambda>n. n @ nl) ms
               @ [rule_line, manual_header]
               @ map (\<lambda>x. x @ nl) (cannotLeave (leaveSuppportCmd_select scenario_leave))
               @ [nl @ ''Dry run only, no exits were performed.'' @ nl]"
    "distinct (map Name scenario_leave) \<longrightarrow>
       distinct ms \<and> set (cannotLeave (leaveSuppportCmd_select scenario_leave)) \<inter> set ms = {}"
    by blast
  from ms(2) have "count_list ms ''_beta'' = Suc 0"
    by (simp add: scenario_leave_selected)
  then have ne': "ms \<noteq> []"
    by (rule counted_not_Nil)
  from ms ne' d dr have Lv: "\<exists>names. sorted names \<and> names \<noteq> [] \<and> distinct names
        \<and> set (cannotLeave (leaveSuppportCmd_select scenario_leave)) \<inter> set names = {}
        \<and> printed (fresh 100)
               (snd (leaveSuppportCmd_exec (scripted [] []) dry scenario_leave (fresh 100))) =
             [rule_line, ''You will be leaving the following channels:'' @ nl]
               @ map (\<lambda>n. n @ nl) names
               @ [rule_line, manual_header]
               @ map (\<lambda>x. x @ nl) (cannotLeave (leaveSuppportCmd_select scenario_leave))
               @ [nl @ ''Dry run only, no exits were performed.'' @ nl]"
    by blast
  from d dr J Lv show ?thesis by blast
qed

text \<open>
  Two listed channels with one name: the name is selected twice in Join mode, and the
  command prints it twice; in Leave mode it is both in \<open>cannotLeave\<close> and among the names
  when one of the two channels is externally shared.
\<close>

theorem duplicate_names_counterexample:
  "\<not> distinct (sort (supportChannelNames (joinSuppportCmd_select
        [chan ''C1'' ''_acme'' False False, chan ''C2'' ''_acme'' False False])))
   \<and> set (cannotLeave (leaveSuppportCmd_select
        [chan ''C1'' ''_acme'' True True, chan ''C2'' ''_acme'' True False])) \<inter>
     set (sort (supportChannelNames (leaveSuppportCmd_select
        [chan ''C1'' ''_acme'' True True, chan ''C2'' ''_acme'' True False]))) \<noteq> {}
   \<and> printed (fresh 100) (snd (joinSuppportCmd_exec (scripted [] []) dry twins_join (fresh 100))) =
       [rule_line, ''You will be joining the following channels:'' @ nl,
        ''_acme'' @ nl, ''_acme'' @ nl,
        rule_line, ''Dry run only, no joins were performed.'' @ nl]
   \<and> printed (fresh 100)
        (snd (leaveSuppportCmd_exec (scripted [] []) dry
           [chan ''C1'' ''_acme'' True True, chan ''C2'' ''_acme'' True False] (fresh 100))) =
       [rule_line, ''You will be leaving the following channels:'' @ nl, ''_acme'' @ nl,
        rule_line, manual_header, ''_acme'' @ nl,
        nl @ ''Dry run only, no exits were performed.'' @ nl]"
proof -
  have 1: "\<not> distinct (sort (supportChannelNames (joinSuppportCmd_select
        [chan ''C1'' ''_acme'' False False, chan ''C2'' ''_acme'' False False])))
   \<and> set (cannotLeave (leaveSuppportCmd_select
        [chan ''C1'' ''_acme'' True True, chan ''C2'' ''_acme'' True False])) \<inter>
     set (sort (supportChannelNames (leaveSuppportCmd_select
        [chan ''C1'' ''_acme'' True True, chan ''C2'' ''_acme'' True False]))) \<noteq> {}"
    by (simp add: chan_def joinSuppportCmd_select_def leaveSuppportCmd_select_def
          no_selection_def HasPrefix_def)
  have sj: "supportChannelNames (joinSuppportCmd_select twins_join) = [''_acme'', ''_acme'']"
    by (simp add: twins_join_def chan_def joinSuppportCmd_select_def no_selection_def HasPrefix_def)
  have sl: "supportChannelNames (leaveSuppportCmd_select
        [chan ''C1'' ''_acme'' True True, chan ''C2'' ''_acme'' True False]) = [''_acme'']"
    "cannotLeave (leaveSuppportCmd_select
        [chan ''C1'' ''_acme'' True True, chan ''C2'' ''_acme'' True False]) = [''_acme'']"
    by (simp_all add: chan_def leaveSuppportCmd_select_def no_selection_def HasPrefix_def)
  have 2: "printed (fresh 100) (snd (joinSuppportCmd_exec (scripted [] []) dry twins_join (fresh 100))) =
       [rule_line, ''You will be joining the following channels:'' @ nl,
        ''_acme'' @ nl, ''_acme'' @ nl,
        rule_line, ''Dry run only, no joins were performed.'' @ nl]"
    by (simp add: joinSuppportCmd_exec_def Let_def sj dry_def printed_def fresh_def)
  have 3: "printed (fresh 100)
        (snd (leaveSuppportCmd_exec (scripted [] []) dry
           [chan ''C1'' ''_acme'' True True, chan ''C2'' ''_acme'' True False] (fresh 100))) =
       [rule_line, ''You will be leaving the following channels:'' @ nl, ''_acme'' @ nl,
        rule_line, manual_header, ''_acme'' @ nl,
        nl @ ''Dry run only, no exits were performed.'' @ nl]"
    by (simp add: leaveSuppportCmd_exec_def Let_def sl dry_def printed_def fresh_def)
  from 1 2 3 show ?thesis by blast
qed

section \<open>The listing\<close>

lemma loop_last:
  assumes "GetConversationsContext cl c (world s) = (Inr (page, []), w')"
  shows "getAllChannels_loop cl acc c s =
     Some (Inr (acc @ page), record_effect (GetConversations c) None w' s)"
  using assms by (subst getAllChannels_loop.simps) simp

lemma loop_fail:
  assumes "GetConversationsContext cl c (world s) = (Inl e, w')"
  shows "getAllChannels_loop cl acc c s =
     Some (Inl e, record_effect (GetConversations c) (Some e) w' s)"
  using assms by (subst getAllChannels_loop.simps) simp

lemma loop_more:
  assumes "GetConversationsContext cl c (world s) = (Inr (page, next), w')" "next \<noteq> []"
  shows "getAllChannels_loop cl acc c s =
     getAllChannels_loop cl (acc @ page) next (record_effect (GetConversations c) None w' s)"
  using assms by (subst getAllChannels_loop.simps) simp

text \<open>After the pages of \<open>ps\<close> the loop stands at the next cursor with the pages appended.\<close>

lemma loop_fetched:
  "fetched cl cursor (world s) ps = Some (c, w) \<Longrightarrow>
   \<exists>s1. world s1 = w \<and> stdout s1 = stdout s
      \<and> events s1 = events s @ map (\<lambda>x. (GetConversations x, None)) (butlast (cursor # map snd ps))
      \<and> c = last (cursor # map snd ps)
      \<and> getAllChannels_loop cl acc cursor s =
          getAllChannels_loop cl (acc @ concat (map fst ps)) c s1"
proof (induction ps arbitrary: cursor s acc)
  case Nil
  then show ?case by auto
next
  case (Cons a ps)
  obtain page "next" where a: "a = (page, next)"
    by (cases a)
  from Cons.prems a obtain w' where
    step: "GetConversationsContext cl cursor (world s) = (Inr (page, next), w')" "next \<noteq> []"
    and rest: "fetched cl next w' ps = Some (c, w)"
    by (auto split: prod.splits sum.splits if_splits)
  let ?s = "record_effect (GetConversations cursor) None w' s"
  from rest have "fetched cl next (world ?s) ps = Some (c, w)"
    by simp
  from Cons.IH [OF this, of "acc @ page"] obtain s1 where
    s1: "world s1 = w" "stdout s1 = stdout s"
      "events s1 = events ?s @ map (\<lambda>x. (GetConversations x, None)) (butlast (next # map snd ps))"
      "c = last (next # map snd ps)"
      "getAllChannels_loop cl (acc @ page) next ?s =
         getAllChannels_loop cl ((acc @ page) @ concat (map fst ps)) c s1"
    by auto
  have "getAllChannels_loop cl acc cursor s =
      getAllChannels_loop cl (acc @ concat (map fst (a # ps))) c s1"
    using loop_more [OF step] s1(5) a by simp
  with s1 a show ?case by auto
qed

lemma listing_returns:
  assumes pages: "fetched cl [] (world s) ps = Some (c, w)"
    and final: "GetConversationsContext cl c w = (Inr (page, []), w')"
  shows "\<exists>s'. getAllChannels cl s = Some (Inr (concat (map fst ps) @ page), s')
     \<and> issued s s' = map (\<lambda>x. (GetConversations x, None)) ([] # map snd ps)"
proof -
  from loop_fetched [OF pages, of "[]"] obtain s1 where
    s1: "world s1 = w"
      "events s1 = events s @ map (\<lambda>x. (GetConversations x, None)) (butlast ([] # map snd ps))"
      "c = last ([] # map snd ps)"
      "getAllChannels cl s = getAllChannels_loop cl (concat (map fst ps)) c s1"
    by (auto simp: getAllChannels_def)
  have cur: "butlast ([] # map snd ps) @ [c] = [] # map snd ps"
    unfolding s1(3) by (rule append_butlast_last_id) simp
  from final s1(1) have "GetConversationsContext cl c (world s1) = (Inr (page, []), w')"
    by simp
  from loop_last [OF this] s1(4)
  have r: "getAllChannels cl s = Some (Inr (concat (map fst ps) @ page),
      record_effect (GetConversations c) None w' s1)"
    by simp
  have "issued s (record_effect (GetConversations c) None w' s1) =
      map (\<lambda>x. (GetConversations x, None)) (butlast ([] # map snd ps) @ [c])"
    by (simp add: issued_def s1(2))
  with r show ?thesis unfolding cur by blast
qed

lemma listing_fails:
  assumes pages: "fetched cl [] (world s) ps = Some (c, w)"
    and final: "GetConversationsContext cl c w = (Inl e, w')"
  shows "\<exists>s'. getAllChannels cl s = Some (Inl e, s')
     \<and> issued s s' = map (\<lambda>x. (GetConversations x, None)) (butlast ([] # map snd ps))
          @ [(GetConversations c, Some e)]"
proof -
  from loop_fetched [OF pages, of "[]"] obtain s1 where
    s1: "world s1 = w"
      "events s1 = events s @ map (\<lambda>x. (GetConversations x, None)) (butlast ([] # map snd ps))"
      "getAllChannels cl s = getAllChannels_loop cl (concat (map fst ps)) c s1"
    by (auto simp: getAllChannels_def)
  from final s1(1) have "GetConversationsContext cl c (world s1) = (Inl e, w')"
    by simp
  from loop_fail [OF this] s1(3)
  have r: "getAllChannels cl s = Some (Inl e, record_effect (GetConversations c) (Some e) w' s1)"
    by simp
  have "issued s (record_effect (GetConversations c) (Some e) w' s1) =
      map (\<lambda>x. (GetConversations x, None)) (butlast ([] # map snd ps)) @ [(GetConversations c, Some e)]"
    by (simp add: issued_def s1(2))
  with r show ?thesis by blast
qed

text \<open>Whatever the loop returns, it returns after finitely many pages of this kind.\<close>

lemma loop_returned:
  assumes "getAllChannels_loop cl acc cursor s = Some y"
  shows "\<exists>ps c w w'. fetched cl cursor (world s) ps = Some (c, w) \<and>
      ((\<exists>page. GetConversationsContext cl c w = (Inr (page, []), w')
           \<and> fst y = Inr (acc @ concat (map fst ps) @ page))
       \<or> (\<exists>e. GetConversationsContext cl c w = (Inl e, w') \<and> fst y = Inl e))"
  using assms
proof (induction rule: getAllChannels_loop.raw_induct [rotated 1, consumes 1, case_names step])
  case (step loop cl acc cursor s y)
  obtain res w where f: "GetConversationsContext cl cursor (world s) = (res, w)"
    by (cases "GetConversationsContext cl cursor (world s)")
  show ?case
  proof (cases res)
    case (Inl e)
    with step(2) f have "fst y = Inl e"
      by auto
    with f Inl have "fetched cl cursor (world s) [] = Some (cursor, world s)
        \<and> GetConversationsContext cl cursor (world s) = (Inl e, w) \<and> fst y = Inl e"
      by simp
    then show ?thesis by blast
  next
    case (Inr pn)
    obtain page "next" where pn: "pn = (page, next)"
      by (cases pn)
    show ?thesis
    proof (cases "next = []")
      case True
      with step(2) f Inr pn have "fst y = Inr (acc @ concat (map fst []) @ page)"
        by auto
      with f Inr pn True have "fetched cl cursor (world s) [] = Some (cursor, world s)
          \<and> GetConversationsContext cl cursor (world s) = (Inr (page, []), w)
          \<and> fst y = Inr (acc @ concat (map fst []) @ page)"
        by simp
      then show ?thesis by blast
    next
      case False
      let ?s = "record_effect (GetConversations cursor) None w s"
      from step(2) f Inr pn False have "loop cl (acc @ page) next ?s = Some y"
        by simp
      from step(1) [OF this] obtain ps c w1 w' where
        ps: "fetched cl next w ps = Some (c, w1)"
        and fin: "(\<exists>pg. GetConversationsContext cl c w1 = (Inr (pg, []), w')
              \<and> fst y = Inr ((acc @ page) @ concat (map fst ps) @ pg))
          \<or> (\<exists>e. GetConversationsContext cl c w1 = (Inl e, w') \<and> fst y = Inl e)"
        by auto
      from ps f Inr pn False
      have "fetched cl cursor (world s) ((page, next) # ps) = Some (c, w1)"
        by simp
      moreover from fin
      have "(\<exists>pg. GetConversationsContext cl c w1 = (Inr (pg, []), w')
              \<and> fst y = Inr (acc @ concat (map fst ((page, next) # ps)) @ pg))
          \<or> (\<exists>e. GetConversationsContext cl c w1 = (Inl e, w') \<and> fst y = Inl e)"
        by simp
      ultimately show ?thesis by blast
    qed
  qed
qed

text \<open>Whatever the loop returns, it issued listing calls only.\<close>

lemma loop_effects:
  assumes "getAllChannels_loop cl acc cursor s = Some y"
  shows "\<exists>E. events (snd y) = events s @ E \<and> (\<forall>x \<in> set E. \<exists>c. fst x = GetConversations c)"
  using assms
proof (induction rule: getAllChannels_loop.raw_induct [rotated 1, consumes 1, case_names step])
  case (step loop cl acc cursor s y)
  obtain res w where f: "GetConversationsContext cl cursor (world s) = (res, w)"
    by (cases "GetConversationsContext cl cursor (world s)")
  show ?case
  proof (cases res)
    case (Inl e)
    with step(2) f have "events (snd y) = events s @ [(GetConversations cursor, Some e)]"
      by auto
    then show ?thesis by simp
  next
    case (Inr pn)
    obtain page "next" where pn: "pn = (page, next)"
      by (cases pn)
    show ?thesis
    proof (cases "next = []")
      case True
      with step(2) f Inr pn have "events (snd y) = events s @ [(GetConversations cursor, None)]"
        by auto
      then show ?thesis by simp
    next
      case False
      let ?s = "record_effect (GetConversations cursor) None w s"
      from step(2) f Inr pn False have "loop cl (acc @ page) next ?s = Some y"
        by simp
      from step(1) [OF this] obtain E where
        "events (snd y) = events ?s @ E" "\<forall>x \<in> set E. \<exists>c. fst x = GetConversations c"
        by blast
      then have "events (snd y) = events s @ ((GetConversations cursor, None) # E)
          \<and> (\<forall>x \<in> set ((GetConversations cursor, None) # E). \<exists>c. fst x = GetConversations c)"
        by simp
      then show ?thesis by blast
    qed
  qed
qed

text \<open>
  C9. The loop of \<^verbatim>\<open>getAllChannels\<close> starts with the empty cursor and sends each
  request with the cursor that the answer before it returned. If the client answers
  the pages of \<open>ps\<close>, each with a non-empty next cursor, and then a last page with the
  empty cursor, the listing returns all these pages concatenated in the order in which
  they were fetched. If instead a request fails after the pages of \<open>ps\<close>, the listing
  returns that error and nothing else: the result is the error alone, the pages of \<open>ps\<close>
  are not part of it. Every listing that returns is of one of these two kinds.
\<close>

theorem listing_all_or_nothing:
  "(fetched cl [] (world s) ps = Some (c, w)
      \<and> GetConversationsContext cl c w = (Inr (page, []), w') \<longrightarrow>
        (\<exists>s'. getAllChannels cl s = Some (Inr (concat (map fst ps) @ page), s')
           \<and> issued s s' = map (\<lambda>x. (GetConversations x, None)) ([] # map snd ps)))
   \<and> (fetched cl [] (world s) ps = Some (c, w)
      \<and> GetConversationsContext cl c w = (Inl e, w') \<longrightarrow>
        (\<exists>s'. getAllChannels cl s = Some (Inl e, s')
           \<and> issued s s' = map (\<lambda>x. (GetConversations x, None)) (butlast ([] # map snd ps))
                @ [(GetConversations c, Some e)]))
   \<and> (getAllChannels cl s = Some (res, s'') \<longrightarrow>
        (\<exists>qs c1 w1 w2. fetched cl [] (world s) qs = Some (c1, w1) \<and>
           ((\<exists>pg. GetConversationsContext cl c1 w1 = (Inr (pg, []), w2)
                \<and> res = Inr (concat (map fst qs) @ pg))
            \<or> (\<exists>e1. GetConversationsContext cl c1 w1 = (Inl e1, w2) \<and> res = Inl e1))))"
proof -
  have conv: "\<exists>qs c1 w1 w2. fetched cl [] (world s) qs = Some (c1, w1) \<and>
           ((\<exists>pg. GetConversationsContext cl c1 w1 = (Inr (pg, []), w2)
                \<and> res = Inr (concat (map fst qs) @ pg))
            \<or> (\<exists>e1. GetConversationsContext cl c1 w1 = (Inl e1, w2) \<and> res = Inl e1))"
    if "getAllChannels cl s = Some (res, s'')"
    using loop_returned [of cl "[]" "[]" s "(res, s'')"] that
    by (simp add: getAllChannels_def)
  have ok: "\<exists>s'. getAllChannels cl s = Some (Inr (concat (map fst ps) @ page), s')
           \<and> issued s s' = map (\<lambda>x. (GetConversations x, None)) ([] # map snd ps)"
    if "fetched cl [] (world s) ps = Some (c, w)"
      and "GetConversationsContext cl c w = (Inr (page, []), w')"
    using that by (rule listing_returns)
  have bad: "\<exists>s'. getAllChannels cl s = Some (Inl e, s')
           \<and> issued s s' = map (\<lambda>x. (GetConversations x, None)) (butlast ([] # map snd ps))
                @ [(GetConversations c, Some e)]"
    if "fetched cl [] (world s) ps = Some (c, w)"
      and "GetConversationsContext cl c w = (Inl e, w')"
    using that by (rule listing_fails)
  from ok bad conv show ?thesis
    by blast
qed

lemma two_pages_fetched:
  "fetched (scripted two_pages []) [] (world (fresh 100)) [([chan ''C2'' ''_b'' False False], ''n1'')] =
     Some (''n1'', 100)"
  "GetConversationsContext (scripted two_pages []) ''n1'' 100 =
     (Inr ([chan ''C3'' ''_a'' False False, chan ''C4'' ''random'' False False], []), 100)"
  by (simp_all add: two_pages_def fresh_def)

lemma broken_pages_fetched:
  "fetched (scripted broken_pages []) [] (world (fresh 100)) [([chan ''C2'' ''_b'' False False], ''n1'')] =
     Some (''n1'', 100)"
  "GetConversationsContext (scripted broken_pages []) ''n1'' 100 =
     (Inl (ApiError ''invalid_cursor''), 100)"
  by (simp_all add: broken_pages_def fresh_def)

theorem listing_all_or_nothing_witness:
  "fetched (scripted two_pages []) [] (world (fresh 100)) [([chan ''C2'' ''_b'' False False], ''n1'')] =
     Some (''n1'', 100)
   \<and> (\<exists>s'. getAllChannels (scripted two_pages []) (fresh 100) =
          Some (Inr [chan ''C2'' ''_b'' False False, chan ''C3'' ''_a'' False False,
                     chan ''C4'' ''random'' False False], s')
        \<and> issued (fresh 100) s' = [(GetConversations [], None), (GetConversations ''n1'', None)])
   \<and> fetched (scripted broken_pages []) [] (world (fresh 100)) [([chan ''C2'' ''_b'' False False], ''n1'')] =
     Some (''n1'', 100)
   \<and> (\<exists>s'. getAllChannels (scripted broken_pages []) (fresh 100) =
          Some (Inl (ApiError ''invalid_cursor''), s')
        \<and> issued (fresh 100) s' =
            [(GetConversations [], None), (GetConversations ''n1'', Some (ApiError ''invalid_cursor''))])
   \<and> (\<exists>qs c1 w1 w2. fetched (scripted broken_pages []) [] (world (fresh 100)) qs = Some (c1, w1) \<and>
           ((\<exists>pg. GetConversationsContext (scripted broken_pages []) c1 w1 = (Inr (pg, []), w2)
                \<and> (Inl (ApiError ''invalid_cursor'') :: error + channel list) = Inr (concat (map fst qs) @ pg))
            \<or> (\<exists>e1. GetConversationsContext (scripted broken_pages []) c1 w1 = (Inl e1, w2)
                \<and> (Inl (ApiError ''invalid_cursor'') :: error + channel list) = Inl e1)))"
proof -
  note t1 = listing_all_or_nothing [where cl = "scripted two_pages []" and s = "fresh 100"
      and ps = "[([chan ''C2'' ''_b'' False False], ''n1'')]" and c = "''n1''" and w = 100
      and page = "[chan ''C3'' ''_a'' False False, chan ''C4'' ''random'' False False]" and w' = 100]
  from t1 two_pages_fetched have 1:
    "\<exists>s'. getAllChannels (scripted two_pages []) (fresh 100) =
          Some (Inr (concat (map fst [([chan ''C2'' ''_b'' False False], ''n1'')]) @
                [chan ''C3'' ''_a'' False False, chan ''C4'' ''random'' False False]), s')
        \<and> issued (fresh 100) s' =
            map (\<lambda>x. (GetConversations x, None)) ([] # map snd [([chan ''C2'' ''_b'' False False], ''n1'')])"
    by blast
  then have 1: "\<exists>s'. getAllChannels (scripted two_pages []) (fresh 100) =
          Some (Inr [chan ''C2'' ''_b'' False False, chan ''C3'' ''_a'' False False,
                     chan ''C4'' ''random'' False False], s')
        \<and> issued (fresh 100) s' = [(GetConversations [], None), (GetConversations ''n1'', None)]"
    by simp
  note t2 = listing_all_or_nothing [where cl = "scripted broken_pages []" and s = "fresh 100"
      and ps = "[([chan ''C2'' ''_b'' False False], ''n1'')]" and c = "''n1''" and w = 100
      and e = "ApiError ''invalid_cursor''" and w' = 100]
  from t2 broken_pages_fetched have
    "\<exists>s'. getAllChannels (scripted broken_pages []) (fresh 100) = Some (Inl (ApiError ''invalid_cursor''), s')
        \<and> issued (fresh 100) s' =
            map (\<lambda>x. (GetConversations x, None)) (butlast ([] # map snd [([chan ''C2'' ''_b'' False False], ''n1'')]))
              @ [(GetConversations ''n1'', Some (ApiError ''invalid_cursor''))]"
    by blast
  then have 2: "\<exists>s'. getAllChannels (scripted broken_pages []) (fresh 100) =
          Some (Inl (ApiError ''invalid_cursor''), s')
        \<and> issued (fresh 100) s' =
            [(GetConversations [], None), (GetConversations ''n1'', Some (ApiError ''invalid_cursor''))]"
    by simp
  then obtain s2 where r: "getAllChannels (scripted broken_pages []) (fresh 100) =
      Some (Inl (ApiError ''invalid_cursor''), s2)"
    by blast
  note t3 = listing_all_or_nothing [where cl = "scripted broken_pages []" and s = "fresh 100"
      and res = "Inl (ApiError ''invalid_cursor'')" and s'' = s2]
  from t3 r have 3: "\<exists>qs c1 w1 w2. fetched (scripted broken_pages []) [] (world (fresh 100)) qs = Some (c1, w1) \<and>
           ((\<exists>pg. GetConversationsContext (scripted broken_pages []) c1 w1 = (Inr (pg, []), w2)
                \<and> (Inl (ApiError ''invalid_cursor'') :: error + channel list) = Inr (concat (map fst qs) @ pg))
            \<or> (\<exists>e1. GetConversationsContext (scripted broken_pages []) c1 w1 = (Inl e1, w2)
                \<and> (Inl (ApiError ''invalid_cursor'') :: error + channel list) = Inl e1))"
    by blast
  from 1 2 3 two_pages_fetched(1) broken_pages_fetched(1) show ?thesis
    by blast
qed

section \<open>The commands from checkAuth on\<close>

lemma checkAuth_effects:
  assumes "checkAuth New fl s = (r, s1)"
  shows "\<exists>E. events s1 = events s @ E \<and> (\<forall>x \<in> set E. \<not> mutating (fst x))"
proof (cases "length (slackKey fl) = 0")
  case True
  with assms have "events s1 = events s @ []"
    by (simp add: checkAuth_def)
  then show ?thesis by fastforce
next
  case False
  obtain a w where a: "AuthTestContext (New (slackKey fl)) (world s) = (a, w)"
    by (cases "AuthTestContext (New (slackKey fl)) (world s)")
  with assms False have "events s1 = events s @ [(AuthTest, err_of a)]"
    by (auto simp: checkAuth_def Let_def split: sum.splits)
  moreover have "\<forall>x \<in> set [(AuthTest, err_of a)]. \<not> mutating (fst x)"
    by simp
  ultimately show ?thesis by blast
qed

lemma getAllChannels_effects:
  assumes "getAllChannels cl s = Some (r, s')"
  shows "\<exists>E. events s' = events s @ E \<and> (\<forall>x \<in> set E. \<not> mutating (fst x))"
proof -
  from loop_effects [of cl "[]" "[]" s "(r, s')"] assms obtain E where
    E: "events s' = events s @ E" "\<forall>x \<in> set E. \<exists>c. fst x = GetConversations c"
    by (auto simp: getAllChannels_def)
  from E(2) have "\<forall>x \<in> set E. \<not> mutating (fst x)"
    by fastforce
  with E(1) show ?thesis by blast
qed

text \<open>
  A command that returns has either stopped with the error of \<^verbatim>\<open>checkAuth\<close> or of the
  listing, or has gone on with the channels listed; up to there it has issued no call
  that changes anything.
\<close>

lemma command_phases:
  assumes run: "(case checkAuth New fl s of
        (Inl err, s1) \<Rightarrow> Some (Some err, s1)
      | (Inr cl, s1) \<Rightarrow>
          (case getAllChannels cl s1 of
             None \<Rightarrow> None
           | Some (Inl err, s2) \<Rightarrow> Some (Some err, s2)
           | Some (Inr channels, s2) \<Rightarrow> Some (exec cl fl channels s2))) = Some (r, s')"
  shows "(\<exists>E. events s' = events s @ E \<and> (\<forall>x \<in> set E. \<not> mutating (fst x)))
       \<or> (\<exists>cl L s2 E. events s2 = events s @ E \<and> (\<forall>x \<in> set E. \<not> mutating (fst x))
             \<and> exec cl fl L s2 = (r, s'))"
proof -
  obtain a s1 where auth: "checkAuth New fl s = (a, s1)"
    by (cases "checkAuth New fl s")
  from checkAuth_effects [OF auth] obtain E1 where
    E1: "events s1 = events s @ E1" "\<forall>x \<in> set E1. \<not> mutating (fst x)"
    by blast
  show ?thesis
  proof (cases a)
    case (Inl err)
    with run auth have "s' = s1"
      by simp
    with E1 show ?thesis by blast
  next
    case (Inr cl)
    with run auth obtain b s2 where list: "getAllChannels cl s1 = Some (b, s2)"
      by (cases "getAllChannels cl s1") auto
    from getAllChannels_effects [OF list] obtain E2 where
      E2: "events s2 = events s1 @ E2" "\<forall>x \<in> set E2. \<not> mutating (fst x)"
      by blast
    from E1 E2 have E: "events s2 = events s @ (E1 @ E2)" "\<forall>x \<in> set (E1 @ E2). \<not> mutating (fst x)"
      by auto
    show ?thesis
    proof (cases b)
      case (Inl err)
      with run auth Inr list have "s' = s2"
        by simp
      with E show ?thesis by blast
    next
      case (Inr L)
      with run auth \<open>a = Inr cl\<close> list have "exec cl fl L s2 = (r, s')"
        by simp
      with E show ?thesis by blast
    qed
  qed
qed

lemma dry_command_no_mutation:
  assumes phases: "(\<exists>E. events s' = events s @ E \<and> (\<forall>x \<in> set E. \<not> mutating (fst x)))
       \<or> (\<exists>cl L s2 E. events s2 = events s @ E \<and> (\<forall>x \<in> set E. \<not> mutating (fst x))
             \<and> exec cl fl L s2 = (r, s'))"
    and dry: "\<And>cl L s2. events (snd (exec cl fl L s2)) = events s2"
  shows "filter (\<lambda>x. mutating (fst x)) (issued s s') = []"
proof -
  from phases obtain E where "events s' = events s @ E" "\<forall>x \<in> set E. \<not> mutating (fst x)"
  proof
    assume "\<exists>E. events s' = events s @ E \<and> (\<forall>x \<in> set E. \<not> mutating (fst x))"
    then show ?thesis using that by blast
  next
    assume "\<exists>cl L s2 E. events s2 = events s @ E \<and> (\<forall>x \<in> set E. \<not> mutating (fst x))
             \<and> exec cl fl L s2 = (r, s')"
    then obtain cl L s2 E where
      E: "events s2 = events s @ E" "\<forall>x \<in> set E. \<not> mutating (fst x)" "exec cl fl L s2 = (r, s')"
      by blast
    from dry [of cl L s2] E(3) have "events s' = events s2"
      by simp
    with E show ?thesis using that by simp
  qed
  then show ?thesis
    by (simp add: issued_def filter_empty_conv)
qed

lemma joinSuppportCmd_dry:
  assumes "dryRun fl" "joinSuppportCmd New fl s = Some (r, s')"
  shows "filter (\<lambda>x. mutating (fst x)) (issued s s') = []"
  using command_phases [where New = New and fl = fl and s = s and exec = joinSuppportCmd_exec
      and r = r and s' = s'] assms(2)
    joinSuppportCmd_exec_dry(1) [OF assms(1)]
  by (intro dry_command_no_mutation [where exec = joinSuppportCmd_exec and fl = fl and r = r])
     (simp_all add: joinSuppportCmd_def)

lemma leaveSuppportCmd_dry:
  assumes "dryRun fl" "leaveSuppportCmd New fl s = Some (r, s')"
  shows "filter (\<lambda>x. mutating (fst x)) (issued s s') = []"
  using command_phases [where New = New and fl = fl and s = s and exec = leaveSuppportCmd_exec
      and r = r and s' = s'] assms(2)
    leaveSuppportCmd_exec_dry(1) [OF assms(1)]
  by (intro dry_command_no_mutation [where exec = leaveSuppportCmd_exec and fl = fl and r = r])
     (simp_all add: leaveSuppportCmd_def)

text \<open>A whole dry run against the scripted client that lists two pages.\<close>

lemma dry_commands_return:
  "\<exists>s'. joinSuppportCmd (\<lambda>key. scripted two_pages []) dry (fresh 100) = Some (None, s')"
  "\<exists>s'. leaveSuppportCmd (\<lambda>key. scripted two_pages []) dry (fresh 100) = Some (None, s')"
proof -
  let ?cl = "scripted two_pages []"
  let ?s1 = "Printf (''Logged in as: '' @ ''operator'' @ nl @ [CHR 0x09] @ ''Team: '' @ ''roach'' @ nl)
     (record_effect AuthTest None 100 (fresh 100))"
  have d: "dryRun dry"
    by (simp add: dry_def)
  have auth: "checkAuth (\<lambda>key. ?cl) dry (fresh 100) = (Inr ?cl, ?s1)"
    by (simp add: checkAuth_def dry_def Let_def err_of_def fresh_def)
  have "fetched ?cl [] (world ?s1) [([chan ''C2'' ''_b'' False False], ''n1'')] = Some (''n1'', 100)"
    by (simp add: two_pages_def)
  from listing_returns [OF this two_pages_fetched(2)] obtain L s2 where
    list: "getAllChannels ?cl ?s1 = Some (Inr L, s2)"
    by blast
  have "joinSuppportCmd_exec ?cl dry L s2 = (None, snd (joinSuppportCmd_exec ?cl dry L s2))"
    by (rule run_eq) (rule joinSuppportCmd_exec_dry(2) [OF d])
  with auth list
  have "joinSuppportCmd (\<lambda>key. ?cl) dry (fresh 100) =
      Some (None, snd (joinSuppportCmd_exec ?cl dry L s2))"
    by (simp add: joinSuppportCmd_def)
  then show "\<exists>s'. joinSuppportCmd (\<lambda>key. ?cl) dry (fresh 100) = Some (None, s')"
    by blast
  have "leaveSuppportCmd_exec ?cl dry L s2 = (None, snd (leaveSuppportCmd_exec ?cl dry L s2))"
    by (rule run_eq) (rule leaveSuppportCmd_exec_dry(2) [OF d])
  with auth list
  have "leaveSuppportCmd (\<lambda>key. ?cl) dry (fresh 100) =
      Some (None, snd (leaveSuppportCmd_exec ?cl dry L s2))"
    by (simp add: leaveSuppportCmd_def)
  then show "\<exists>s'. leaveSuppportCmd (\<lambda>key. ?cl) dry (fresh 100) = Some (None, s')"
    by blast
qed

section \<open>Calls per channel when the listed names are pairwise different\<close>

lemma map_insort_key: "map f (insort_key f a xs) = insort (f a) (map f xs)"
  by (induction xs) simp_all

lemma map_sort_key: "map f (sort_key f xs) = sort (map f xs)"
  by (induction xs) (simp_all add: map_insort_key)

text \<open>The sorted names are the names of the selected channels, put in the order of their names.\<close>

lemma join_names_by_channel:
  "sort (supportChannelNames (joinSuppportCmd_select L)) =
     map Name (sort_key Name (filter joinable L))"
  by (simp add: joinSuppportCmd_select_names map_sort_key)

lemma leave_names_by_channel:
  "sort (supportChannelNames (leaveSuppportCmd_select L)) =
     map Name (sort_key Name (filter leavable L))"
  by (simp add: leaveSuppportCmd_select_names map_sort_key)

text \<open>Then the identifier kept for the name of a selected channel is that channel's.\<close>

lemma join_id_of_channel:
  assumes d: "distinct (map Name L)" and ch: "ch \<in> set L" "joinable ch"
  shows "lookup (channelIDs (joinSuppportCmd_select L)) (Name ch) = ID ch"
proof -
  from ch have "Name ch \<in> set (sort (supportChannelNames (joinSuppportCmd_select L)))"
    by (auto simp: joinSuppportCmd_select_names)
  with joinSuppportCmd_select_ids [of L] obtain c where
    c: "c \<in> set L" "Name c = Name ch"
      "lookup (channelIDs (joinSuppportCmd_select L)) (Name ch) = ID c"
    by blast
  from same_name_same_channel [OF d c(1) ch(1) c(2)] c(3) show ?thesis
    by simp
qed

lemma leave_id_of_channel:
  assumes d: "distinct (map Name L)" and ch: "ch \<in> set L" "leavable ch"
  shows "lookup (channelIDs (leaveSuppportCmd_select L)) (Name ch) = ID ch"
proof -
  from ch have "Name ch \<in> set (sort (supportChannelNames (leaveSuppportCmd_select L)))"
    by (auto simp: leaveSuppportCmd_select_names)
  with leaveSuppportCmd_select_ids [of L] obtain c where
    c: "c \<in> set L" "Name c = Name ch"
      "lookup (channelIDs (leaveSuppportCmd_select L)) (Name ch) = ID c"
    by blast
  from same_name_same_channel [OF d c(1) ch(1) c(2)] c(3) show ?thesis
    by simp
qed

lemma join_calls_by_channel:
  assumes d: "distinct (map Name L)"
  shows "map (\<lambda>n. (JoinChannel n, None)) (sort (supportChannelNames (joinSuppportCmd_select L))) @
         map (\<lambda>n. (SetChannelReadMark (lookup (channelIDs (joinSuppportCmd_select L)) n) ts, None))
           (sort (supportChannelNames (joinSuppportCmd_select L))) =
         map (\<lambda>ch. (JoinChannel (Name ch), None)) (sort_key Name (filter joinable L)) @
         map (\<lambda>ch. (SetChannelReadMark (ID ch) ts, None)) (sort_key Name (filter joinable L))"
proof -
  have "lookup (channelIDs (joinSuppportCmd_select L)) (Name ch) = ID ch"
    if "ch \<in> set (sort_key Name (filter joinable L))" for ch
    using that join_id_of_channel [OF d, of ch] by simp
  then show ?thesis
    unfolding join_names_by_channel by (simp add: o_def)
qed

lemma leave_calls_by_channel:
  assumes d: "distinct (map Name L)"
  shows "map (\<lambda>n. (LeaveChannel (lookup (channelIDs (leaveSuppportCmd_select L)) n), None))
           (sort (supportChannelNames (leaveSuppportCmd_select L))) =
         map (\<lambda>ch. (LeaveChannel (ID ch), None)) (sort_key Name (filter leavable L))"
proof -
  have "lookup (channelIDs (leaveSuppportCmd_select L)) (Name ch) = ID ch"
    if "ch \<in> set (sort_key Name (filter leavable L))" for ch
    using that leave_id_of_channel [OF d, of ch] by simp
  then show ?thesis
    unfolding leave_names_by_channel by (simp add: o_def)
qed

text \<open>A command that returns no error has listed its channels and run on them.\<close>

lemma command_succeeded:
  assumes run: "(case checkAuth New fl s of
        (Inl err, s1) \<Rightarrow> Some (Some err, s1)
      | (Inr cl, s1) \<Rightarrow>
          (case getAllChannels cl s1 of
             None \<Rightarrow> None
           | Some (Inl err, s2) \<Rightarrow> Some (Some err, s2)
           | Some (Inr channels, s2) \<Rightarrow> Some (exec cl fl channels s2))) = Some (None, s')"
  shows "\<exists>cl sa L sb. checkAuth New fl s = (Inr cl, sa)
       \<and> getAllChannels cl sa = Some (Inr L, sb) \<and> exec cl fl L sb = (None, s')"
  using run by (auto split: prod.splits sum.splits option.splits)

lemma twins_leave_run:
  "supportChannelNames (leaveSuppportCmd_select twins_leave) = [''_acme'', ''_acme'']"
  "sort (supportChannelNames (leaveSuppportCmd_select twins_leave)) = [''_acme'', ''_acme'']"
  "lookup (channelIDs (leaveSuppportCmd_select twins_leave)) ''_acme'' = ''C2''"
  by (simp_all add: twins_leave_def chan_def leaveSuppportCmd_select_def no_selection_def
        HasPrefix_def lookup_def)

lemma twins_join_run:
  "supportChannelNames (joinSuppportCmd_select twins_join) = [''_acme'', ''_acme'']"
  "sort (supportChannelNames (joinSuppportCmd_select twins_join)) = [''_acme'', ''_acme'']"
  "lookup (channelIDs (joinSuppportCmd_select twins_join)) ''_acme'' = ''C2''"
  by (simp_all add: twins_join_def chan_def joinSuppportCmd_select_def no_selection_def
        HasPrefix_def lookup_def)

lemma scenario_D_channels:
  "sort_key Name (filter (\<lambda>ch. \<not> IsMember ch \<and>
       (HasPrefix (Name ch) ''_'' \<or> Name ch \<in> set defaultSupportChannels)) scenario_D) =
     [chan ''C3'' ''_a'' False False, chan ''C2'' ''_b'' False False]"
  by (simp add: scenario_D_def chan_def HasPrefix_def)

lemma scenario_leave_channels:
  "sort_key Name (filter (\<lambda>ch. IsMember ch \<and> HasPrefix (Name ch) ''_'' \<and> \<not> IsExtShared ch)
       scenario_leave) =
     [chan ''C5'' ''_alpha'' True False, chan ''C2'' ''_beta'' True False]"
  by (simp add: scenario_leave_def chan_def HasPrefix_def)

section \<open>Dry runs and live runs\<close>

text \<open>
  C4, as the code has it. A dry run of either command, taken from \<^verbatim>\<open>checkAuth\<close> to its
  return, issues no join, no leave and no mark-read call; from the selection on it issues
  no effect at all. A command that returns no error has passed \<^verbatim>\<open>checkAuth\<close>, listed its
  channels and run on them. A live run that returns no error has made, among the calls
  that change anything, exactly one join per selected name in sorted order followed by
  one mark-read per selected name in the same order (Join mode), or exactly one leave per
  selected name in sorted order (Leave mode), and each of these calls succeeded. The
  identifier passed for a name is the one kept in \<open>channelIDs\<close>, that of a listed channel
  with this name that the selection loop took. When no two listed channels share a name,
  these are the calls for the selected channels themselves, each channel once, with its
  own name and identifier, in the order of the names.
\<close>

theorem dry_run_and_live_calls:
  fixes L L' :: "channel list"
  defines "names \<equiv> sort (supportChannelNames (joinSuppportCmd_select L))"
    and "ids \<equiv> channelIDs (joinSuppportCmd_select L)"
    and "names' \<equiv> sort (supportChannelNames (leaveSuppportCmd_select L'))"
    and "ids' \<equiv> channelIDs (leaveSuppportCmd_select L')"
    and "chs \<equiv> sort_key Name (filter (\<lambda>ch. \<not> IsMember ch \<and>
            (HasPrefix (Name ch) ''_'' \<or> Name ch \<in> set defaultSupportChannels)) L)"
    and "chs' \<equiv> sort_key Name (filter (\<lambda>ch. IsMember ch \<and> HasPrefix (Name ch) ''_''
            \<and> \<not> IsExtShared ch) L')"
  shows "(dryRun fl \<and> joinSuppportCmd New fl s0 = Some (r0, s1) \<longrightarrow>
            filter (\<lambda>x. mutating (fst x)) (issued s0 s1) = [])
       \<and> (dryRun fl \<and> leaveSuppportCmd New fl s0 = Some (r0', s1') \<longrightarrow>
            filter (\<lambda>x. mutating (fst x)) (issued s0 s1') = [])
       \<and> (dryRun fl \<longrightarrow>
            issued s (snd (joinSuppportCmd_exec cl fl L s)) = []
          \<and> issued s (snd (leaveSuppportCmd_exec cl fl L' s)) = [])
       \<and> (\<not> dryRun fl \<and> joinSuppportCmd_exec cl fl L s = (None, s') \<longrightarrow>
            (\<exists>t. filter (\<lambda>x. mutating (fst x)) (issued s s') =
                    map (\<lambda>n. (JoinChannel n, None)) names @
                    map (\<lambda>n. (SetChannelReadMark (lookup ids n) (Sprintf_d t), None)) names))
       \<and> (\<not> dryRun fl \<and> leaveSuppportCmd_exec cl fl L' s = (None, s'') \<longrightarrow>
            filter (\<lambda>x. mutating (fst x)) (issued s s'') =
              map (\<lambda>n. (LeaveChannel (lookup ids' n), None)) names')
       \<and> sorted names \<and> sorted names'
       \<and> (\<forall>n \<in> set names. \<exists>ch \<in> set L. Name ch = n \<and> \<not> IsMember ch \<and> lookup ids n = ID ch)
       \<and> (\<forall>n \<in> set names'. \<exists>ch \<in> set L'. Name ch = n \<and> IsMember ch \<and> lookup ids' n = ID ch)
       \<and> (joinSuppportCmd New fl s0 = Some (None, s1) \<longrightarrow>
            (\<exists>cl0 sa L0 sb. checkAuth New fl s0 = (Inr cl0, sa)
               \<and> getAllChannels cl0 sa = Some (Inr L0, sb)
               \<and> joinSuppportCmd_exec cl0 fl L0 sb = (None, s1)))
       \<and> (leaveSuppportCmd New fl s0 = Some (None, s1') \<longrightarrow>
            (\<exists>cl0 sa L0 sb. checkAuth New fl s0 = (Inr cl0, sa)
               \<and> getAllChannels cl0 sa = Some (Inr L0, sb)
               \<and> leaveSuppportCmd_exec cl0 fl L0 sb = (None, s1')))
       \<and> (distinct (map Name L) \<and> \<not> dryRun fl \<and> joinSuppportCmd_exec cl fl L s = (None, s') \<longrightarrow>
            (\<exists>t. filter (\<lambda>x. mutating (fst x)) (issued s s') =
                    map (\<lambda>ch. (JoinChannel (Name ch), None)) chs @
                    map (\<lambda>ch. (SetChannelReadMark (ID ch) (Sprintf_d t), None)) chs))
       \<and> (distinct (map Name L') \<and> \<not> dryRun fl \<and> leaveSuppportCmd_exec cl fl L' s = (None, s'') \<longrightarrow>
            filter (\<lambda>x. mutating (fst x)) (issued s s'') =
              map (\<lambda>ch. (LeaveChannel (ID ch), None)) chs')
       \<and> set chs = {ch \<in> set L. \<not> IsMember ch \<and>
            (HasPrefix (Name ch) ''_'' \<or> Name ch \<in> set defaultSupportChannels)}
       \<and> set chs' = {ch \<in> set L'. IsMember ch \<and> HasPrefix (Name ch) ''_'' \<and> \<not> IsExtShared ch}
       \<and> sorted (map Name chs) \<and> sorted (map Name chs')
       \<and> (distinct (map Name L) \<longrightarrow> distinct chs)
       \<and> (distinct (map Name L') \<longrightarrow> distinct chs')"
proof -
  have chs: "chs = sort_key Name (filter joinable L)"
    and chs': "chs' = sort_key Name (filter leavable L')"
    by (simp_all add: chs_def chs'_def joinable_eq leavable_eq)
  have whole: "filter (\<lambda>x. mutating (fst x)) (issued s0 s1) = []"
    if "dryRun fl" "joinSuppportCmd New fl s0 = Some (r0, s1)"
    using that by (rule joinSuppportCmd_dry)
  have whole': "filter (\<lambda>x. mutating (fst x)) (issued s0 s1') = []"
    if "dryRun fl" "leaveSuppportCmd New fl s0 = Some (r0', s1')"
    using that by (rule leaveSuppportCmd_dry)
  have dry: "issued s (snd (joinSuppportCmd_exec cl fl L s)) = []
      \<and> issued s (snd (leaveSuppportCmd_exec cl fl L' s)) = []" if "dryRun fl"
    using that by (simp add: issued_def joinSuppportCmd_exec_dry leaveSuppportCmd_exec_dry)
  have join: "\<exists>t. filter (\<lambda>x. mutating (fst x)) (issued s s') =
                    map (\<lambda>n. (JoinChannel n, None)) names @
                    map (\<lambda>n. (SetChannelReadMark (lookup ids n) (Sprintf_d t), None)) names"
    if "\<not> dryRun fl" and run: "joinSuppportCmd_exec cl fl L s = (None, s')"
    using joinSuppportCmd_exec_cases [OF run] that(1)
    unfolding names_def [symmetric] ids_def [symmetric]
    by (auto simp: completed_def mark_of_def filter_map_all o_def)
  have leave: "filter (\<lambda>x. mutating (fst x)) (issued s s'') =
              map (\<lambda>n. (LeaveChannel (lookup ids' n), None)) names'"
    if "\<not> dryRun fl" and run: "leaveSuppportCmd_exec cl fl L' s = (None, s'')"
    using leaveSuppportCmd_exec_cases [OF run] that(1)
    unfolding names'_def [symmetric] ids'_def [symmetric]
    by (auto simp: completed_def leave_of_def filter_map_all o_def)
  have order: "sorted names \<and> sorted names'"
    by (simp add: names_def names'_def)
  have idj: "\<forall>n \<in> set names. \<exists>ch \<in> set L. Name ch = n \<and> \<not> IsMember ch \<and> lookup ids n = ID ch"
    unfolding names_def ids_def by (rule joinSuppportCmd_select_ids)
  have idl: "\<forall>n \<in> set names'. \<exists>ch \<in> set L'. Name ch = n \<and> IsMember ch \<and> lookup ids' n = ID ch"
    unfolding names'_def ids'_def by (rule leaveSuppportCmd_select_ids)
  have glue: "\<exists>cl0 sa L0 sb. checkAuth New fl s0 = (Inr cl0, sa)
               \<and> getAllChannels cl0 sa = Some (Inr L0, sb)
               \<and> joinSuppportCmd_exec cl0 fl L0 sb = (None, s1)"
    if "joinSuppportCmd New fl s0 = Some (None, s1)"
    using that by (intro command_succeeded) (simp add: joinSuppportCmd_def)
  have glue': "\<exists>cl0 sa L0 sb. checkAuth New fl s0 = (Inr cl0, sa)
               \<and> getAllChannels cl0 sa = Some (Inr L0, sb)
               \<and> leaveSuppportCmd_exec cl0 fl L0 sb = (None, s1')"
    if "leaveSuppportCmd New fl s0 = Some (None, s1')"
    using that by (intro command_succeeded) (simp add: leaveSuppportCmd_def)
  have join_ch: "\<exists>t. filter (\<lambda>x. mutating (fst x)) (issued s s') =
                    map (\<lambda>ch. (JoinChannel (Name ch), None)) chs @
                    map (\<lambda>ch. (SetChannelReadMark (ID ch) (Sprintf_d t), None)) chs"
    if d: "distinct (map Name L)" and "\<not> dryRun fl" "joinSuppportCmd_exec cl fl L s = (None, s')"
  proof -
    from join [OF that(2,3)] obtain t where
      "filter (\<lambda>x. mutating (fst x)) (issued s s') =
         map (\<lambda>n. (JoinChannel n, None)) (sort (supportChannelNames (joinSuppportCmd_select L))) @
         map (\<lambda>n. (SetChannelReadMark (lookup (channelIDs (joinSuppportCmd_select L)) n)
                  (Sprintf_d t), None))
           (sort (supportChannelNames (joinSuppportCmd_select L)))"
      unfolding names_def ids_def by blast
    then have "filter (\<lambda>x. mutating (fst x)) (issued s s') =
         map (\<lambda>ch. (JoinChannel (Name ch), None)) chs @
         map (\<lambda>ch. (SetChannelReadMark (ID ch) (Sprintf_d t), None)) chs"
      unfolding chs by (simp only: join_calls_by_channel [OF d])
    then show ?thesis by blast
  qed
  have leave_ch: "filter (\<lambda>x. mutating (fst x)) (issued s s'') =
              map (\<lambda>ch. (LeaveChannel (ID ch), None)) chs'"
    if d: "distinct (map Name L')" and "\<not> dryRun fl" "leaveSuppportCmd_exec cl fl L' s = (None, s'')"
    using leave [OF that(2,3)]
    unfolding names'_def ids'_def chs' by (simp only: leave_calls_by_channel [OF d])
  have set1: "set chs = {ch \<in> set L. \<not> IsMember ch \<and>
            (HasPrefix (Name ch) ''_'' \<or> Name ch \<in> set defaultSupportChannels)}"
    and set2: "set chs' = {ch \<in> set L'. IsMember ch \<and> HasPrefix (Name ch) ''_'' \<and> \<not> IsExtShared ch}"
    by (auto simp: chs_def chs'_def)
  have ord1: "sorted (map Name chs)" and ord2: "sorted (map Name chs')"
    by (simp_all add: chs_def chs'_def)
  have dis1: "distinct (map Name L) \<longrightarrow> distinct chs"
    and dis2: "distinct (map Name L') \<longrightarrow> distinct chs'"
    by (auto simp: chs_def chs'_def distinct_map)
  from order have o1: "sorted names" and o2: "sorted names'"
    by simp_all
  from whole have c1: "dryRun fl \<and> joinSuppportCmd New fl s0 = Some (r0, s1) \<longrightarrow>
      filter (\<lambda>x. mutating (fst x)) (issued s0 s1) = []"
    by blast
  from whole' have c2: "dryRun fl \<and> leaveSuppportCmd New fl s0 = Some (r0', s1') \<longrightarrow>
      filter (\<lambda>x. mutating (fst x)) (issued s0 s1') = []"
    by blast
  from dry have c3: "dryRun fl \<longrightarrow>
      issued s (snd (joinSuppportCmd_exec cl fl L s)) = []
      \<and> issued s (snd (leaveSuppportCmd_exec cl fl L' s)) = []"
    by blast
  from join have c4: "\<not> dryRun fl \<and> joinSuppportCmd_exec cl fl L s = (None, s') \<longrightarrow>
      (\<exists>t. filter (\<lambda>x. mutating (fst x)) (issued s s') =
              map (\<lambda>n. (JoinChannel n, None)) names @
              map (\<lambda>n. (SetChannelReadMark (lookup ids n) (Sprintf_d t), None)) names)"
    by blast
  from leave have c5: "\<not> dryRun fl \<and> leaveSuppportCmd_exec cl fl L' s = (None, s'') \<longrightarrow>
      filter (\<lambda>x. mutating (fst x)) (issued s s'') =
        map (\<lambda>n. (LeaveChannel (lookup ids' n), None)) names'"
    by blast
  from glue have c6: "joinSuppportCmd New fl s0 = Some (None, s1) \<longrightarrow>
      (\<exists>cl0 sa L0 sb. checkAuth New fl s0 = (Inr cl0, sa)
         \<and> getAllChannels cl0 sa = Some (Inr L0, sb)
         \<and> joinSuppportCmd_exec cl0 fl L0 sb = (None, s1))"
    by blast
  from glue' have c7: "leaveSuppportCmd New fl s0 = Some (None, s1') \<longrightarrow>
      (\<exists>cl0 sa L0 sb. checkAuth New fl s0 = (Inr cl0, sa)
         \<and> getAllChannels cl0 sa = Some (Inr L0, sb)
         \<and> leaveSuppportCmd_exec cl0 fl L0 sb = (None, s1'))"
    by blast
  from join_ch have c8:
    "distinct (map Name L) \<and> \<not> dryRun fl \<and> joinSuppportCmd_exec cl fl L s = (None, s') \<longrightarrow>
      (\<exists>t. filter (\<lambda>x. mutating (fst x)) (issued s s') =
              map (\<lambda>ch. (JoinChannel (Name ch), None)) chs @
              map (\<lambda>ch. (SetChannelReadMark (ID ch) (Sprintf_d t), None)) chs)"
    by blast
  from leave_ch have c9:
    "distinct (map Name L') \<and> \<not> dryRun fl \<and> leaveSuppportCmd_exec cl fl L' s = (None, s'') \<longrightarrow>
      filter (\<lambda>x. mutating (fst x)) (issued s s'') =
        map (\<lambda>ch. (LeaveChannel (ID ch), None)) chs'"
    by blast
  show ?thesis
    by (intro conjI) (fact c1 c2 c3 c4 c5 o1 o2 idj idl c6 c7 c8 c9 set1 set2 ord1 ord2 dis1 dis2)+
qed

theorem dry_run_and_live_calls_witness:
  "dryRun dry
   \<and> (\<exists>s'. joinSuppportCmd (\<lambda>key. scripted two_pages []) dry (fresh 100) = Some (None, s')
         \<and> filter (\<lambda>x. mutating (fst x)) (issued (fresh 100) s') = []
         \<and> (\<exists>cl0 sa L0 sb. checkAuth (\<lambda>key. scripted two_pages []) dry (fresh 100) = (Inr cl0, sa)
               \<and> getAllChannels cl0 sa = Some (Inr L0, sb)
               \<and> joinSuppportCmd_exec cl0 dry L0 sb = (None, s')))
   \<and> (\<exists>s'. leaveSuppportCmd (\<lambda>key. scripted two_pages []) dry (fresh 100) = Some (None, s')
         \<and> filter (\<lambda>x. mutating (fst x)) (issued (fresh 100) s') = []
         \<and> (\<exists>cl0 sa L0 sb. checkAuth (\<lambda>key. scripted two_pages []) dry (fresh 100) = (Inr cl0, sa)
               \<and> getAllChannels cl0 sa = Some (Inr L0, sb)
               \<and> leaveSuppportCmd_exec cl0 dry L0 sb = (None, s')))
   \<and> issued (fresh 100) (snd (joinSuppportCmd_exec (scripted [] []) dry scenario_D (fresh 100))) = []
   \<and> issued (fresh 100) (snd (leaveSuppportCmd_exec (scripted [] []) dry scenario_leave (fresh 100))) = []
   \<and> \<not> dryRun live
   \<and> fst (joinSuppportCmd_exec (scripted [] []) live scenario_D (fresh 100)) = None
   \<and> (\<exists>t. filter (\<lambda>x. mutating (fst x))
            (issued (fresh 100) (snd (joinSuppportCmd_exec (scripted [] []) live scenario_D (fresh 100)))) =
          [(JoinChannel ''_a'', None), (JoinChannel ''_b'', None),
           (SetChannelReadMark ''C3'' (Sprintf_d t), None),
           (SetChannelReadMark ''C2'' (Sprintf_d t), None)])
   \<and> fst (leaveSuppportCmd_exec (scripted [] []) live scenario_leave (fresh 100)) = None
   \<and> filter (\<lambda>x. mutating (fst x))
        (issued (fresh 100) (snd (leaveSuppportCmd_exec (scripted [] []) live scenario_leave (fresh 100)))) =
      [(LeaveChannel ''C5'', None), (LeaveChannel ''C2'', None)]
   \<and> ''_a'' \<in> set (sort (supportChannelNames (joinSuppportCmd_select scenario_D)))
   \<and> (\<exists>ch \<in> set scenario_D. Name ch = ''_a'' \<and> \<not> IsMember ch
         \<and> lookup (channelIDs (joinSuppportCmd_select scenario_D)) ''_a'' = ID ch)
   \<and> ''_beta'' \<in> set (sort (supportChannelNames (leaveSuppportCmd_select scenario_leave)))
   \<and> (\<exists>ch \<in> set scenario_leave. Name ch = ''_beta'' \<and> IsMember ch
         \<and> lookup (channelIDs (leaveSuppportCmd_select scenario_leave)) ''_beta'' = ID ch)
   \<and> distinct (map Name scenario_D)
   \<and> distinct (map Name scenario_leave)
   \<and> (\<exists>t. filter (\<lambda>x. mutating (fst x))
            (issued (fresh 100) (snd (joinSuppportCmd_exec (scripted [] []) live scenario_D (fresh 100)))) =
          map (\<lambda>ch. (JoinChannel (Name ch), None))
            [chan ''C3'' ''_a'' False False, chan ''C2'' ''_b'' False False] @
          map (\<lambda>ch. (SetChannelReadMark (ID ch) (Sprintf_d t), None))
            [chan ''C3'' ''_a'' False False, chan ''C2'' ''_b'' False False])
   \<and> filter (\<lambda>x. mutating (fst x))
        (issued (fresh 100) (snd (leaveSuppportCmd_exec (scripted [] []) live scenario_leave (fresh 100)))) =
      map (\<lambda>ch. (LeaveChannel (ID ch), None))
        [chan ''C5'' ''_alpha'' True False, chan ''C2'' ''_beta'' True False]
   \<and> distinct [chan ''C3'' ''_a'' False False, chan ''C2'' ''_b'' False False]
   \<and> distinct [chan ''C5'' ''_alpha'' True False, chan ''C2'' ''_beta'' True False]"
proof -
  let ?cl = "scripted [] []"
  let ?New = "\<lambda>key :: string. scripted two_pages []"
  let ?j = "joinSuppportCmd_exec ?cl live scenario_D (fresh 100)"
  let ?l = "leaveSuppportCmd_exec ?cl live scenario_leave (fresh 100)"
  have d: "dryRun dry" and l: "\<not> dryRun live"
    by (simp_all add: dry_def live_def)
  have rj: "?j = (None, snd ?j)" and rl: "?l = (None, snd ?l)"
    by (rule run_eq, rule scenario_D_succeeds(1), rule run_eq, rule scenario_leave_succeeds(1))
  have dj: "distinct (map Name scenario_D)" and dl: "distinct (map Name scenario_leave)"
    by (simp_all add: scenario_D_def scenario_leave_def chan_def)
  from dry_commands_return obtain s1 s2 where
    w1: "joinSuppportCmd ?New dry (fresh 100) = Some (None, s1)"
    and w2: "leaveSuppportCmd ?New dry (fresh 100) = Some (None, s2)"
    by blast
  note t1 = dry_run_and_live_calls [where fl = dry and s = "fresh 100" and cl = ?cl
      and L = scenario_D and L' = scenario_leave and New = ?New
      and ?s0.0 = "fresh 100" and ?r0.0 = None and ?s1.0 = s1 and r0' = None and s1' = s2]
  note t2 = dry_run_and_live_calls [where fl = live and s = "fresh 100" and cl = ?cl
      and L = scenario_D and L' = scenario_leave and s' = "snd ?j" and s'' = "snd ?l"]
  note t3 = t2 [unfolded scenario_D_channels scenario_leave_channels]
  from t1 [THEN conjunct1] d w1
  have W1a: "filter (\<lambda>x. mutating (fst x)) (issued (fresh 100) s1) = []"
    by blast
  from t1 [THEN conjunct2, THEN conjunct1] d w2
  have W2a: "filter (\<lambda>x. mutating (fst x)) (issued (fresh 100) s2) = []"
    by blast
  from t1 [THEN conjunct2, THEN conjunct2, THEN conjunct2, THEN conjunct2, THEN conjunct2, THEN conjunct2, THEN conjunct2, THEN conjunct2, THEN conjunct2, THEN conjunct1] w1
  have W1b: "\<exists>cl0 sa L0 sb. checkAuth ?New dry (fresh 100) = (Inr cl0, sa)
               \<and> getAllChannels cl0 sa = Some (Inr L0, sb)
               \<and> joinSuppportCmd_exec cl0 dry L0 sb = (None, s1)"
    by blast
  from t1 [THEN conjunct2, THEN conjunct2, THEN conjunct2, THEN conjunct2, THEN conjunct2, THEN conjunct2, THEN conjunct2, THEN conjunct2, THEN conjunct2, THEN conjunct2, THEN conjunct1] w2
  have W2b: "\<exists>cl0 sa L0 sb. checkAuth ?New dry (fresh 100) = (Inr cl0, sa)
               \<and> getAllChannels cl0 sa = Some (Inr L0, sb)
               \<and> leaveSuppportCmd_exec cl0 dry L0 sb = (None, s2)"
    by blast
  from t1 [THEN conjunct2, THEN conjunct2, THEN conjunct1] d have A:
    "issued (fresh 100) (snd (joinSuppportCmd_exec ?cl dry scenario_D (fresh 100))) = []
     \<and> issued (fresh 100) (snd (leaveSuppportCmd_exec ?cl dry scenario_leave (fresh 100))) = []"
    by blast
  from t2 [THEN conjunct2, THEN conjunct2, THEN conjunct2, THEN conjunct1] l rj
  have "\<exists>t. filter (\<lambda>x. mutating (fst x)) (issued (fresh 100) (snd ?j)) =
        map (\<lambda>n. (JoinChannel n, None)) (sort (supportChannelNames (joinSuppportCmd_select scenario_D))) @
        map (\<lambda>n. (SetChannelReadMark (lookup (channelIDs (joinSuppportCmd_select scenario_D)) n)
                    (Sprintf_d t), None))
          (sort (supportChannelNames (joinSuppportCmd_select scenario_D)))"
    by blast
  then have C1: "\<exists>t. filter (\<lambda>x. mutating (fst x)) (issued (fresh 100) (snd ?j)) =
          [(JoinChannel ''_a'', None), (JoinChannel ''_b'', None),
           (SetChannelReadMark ''C3'' (Sprintf_d t), None),
           (SetChannelReadMark ''C2'' (Sprintf_d t), None)]"
    by (simp add: scenario_D_selected)
  from t2 [THEN conjunct2, THEN conjunct2, THEN conjunct2, THEN conjunct2, THEN conjunct1] l rl
  have "filter (\<lambda>x. mutating (fst x)) (issued (fresh 100) (snd ?l)) =
        map (\<lambda>n. (LeaveChannel (lookup (channelIDs (leaveSuppportCmd_select scenario_leave)) n), None))
          (sort (supportChannelNames (leaveSuppportCmd_select scenario_leave)))"
    by blast
  then have C2: "filter (\<lambda>x. mutating (fst x)) (issued (fresh 100) (snd ?l)) =
          [(LeaveChannel ''C5'', None), (LeaveChannel ''C2'', None)]"
    by (simp add: scenario_leave_selected scenario_leave_names)
  from t3 [THEN conjunct2, THEN conjunct2, THEN conjunct2, THEN conjunct2, THEN conjunct2, THEN conjunct2, THEN conjunct2, THEN conjunct2, THEN conjunct2, THEN conjunct2, THEN conjunct2, THEN conjunct1] l rj dj
  have D1: "\<exists>t. filter (\<lambda>x. mutating (fst x)) (issued (fresh 100) (snd ?j)) =
          map (\<lambda>ch. (JoinChannel (Name ch), None))
            [chan ''C3'' ''_a'' False False, chan ''C2'' ''_b'' False False] @
          map (\<lambda>ch. (SetChannelReadMark (ID ch) (Sprintf_d t), None))
            [chan ''C3'' ''_a'' False False, chan ''C2'' ''_b'' False False]"
    by blast
  from t3 [THEN conjunct2, THEN conjunct2, THEN conjunct2, THEN conjunct2, THEN conjunct2, THEN conjunct2, THEN conjunct2, THEN conjunct2, THEN conjunct2, THEN conjunct2, THEN conjunct2, THEN conjunct2, THEN conjunct1] l rl dl
  have D2: "filter (\<lambda>x. mutating (fst x)) (issued (fresh 100) (snd ?l)) =
          map (\<lambda>ch. (LeaveChannel (ID ch), None))
            [chan ''C5'' ''_alpha'' True False, chan ''C2'' ''_beta'' True False]"
    by blast
  from t3 [THEN conjunct2, THEN conjunct2, THEN conjunct2, THEN conjunct2, THEN conjunct2, THEN conjunct2, THEN conjunct2, THEN conjunct2, THEN conjunct2, THEN conjunct2, THEN conjunct2, THEN conjunct2, THEN conjunct2, THEN conjunct2, THEN conjunct2, THEN conjunct2, THEN conjunct2, THEN conjunct1] dj
  have D3: "distinct [chan ''C3'' ''_a'' False False, chan ''C2'' ''_b'' False False]"
    by blast
  from t3 [THEN conjunct2, THEN conjunct2, THEN conjunct2, THEN conjunct2, THEN conjunct2, THEN conjunct2, THEN conjunct2, THEN conjunct2, THEN conjunct2, THEN conjunct2, THEN conjunct2, THEN conjunct2, THEN conjunct2, THEN conjunct2, THEN conjunct2, THEN conjunct2, THEN conjunct2, THEN conjunct2] dl
  have D4: "distinct [chan ''C5'' ''_alpha'' True False, chan ''C2'' ''_beta'' True False]"
    by blast
  from w1 W1a W1b have W1': "\<exists>s'. joinSuppportCmd ?New dry (fresh 100) = Some (None, s')
         \<and> filter (\<lambda>x. mutating (fst x)) (issued (fresh 100) s') = []
         \<and> (\<exists>cl0 sa L0 sb. checkAuth ?New dry (fresh 100) = (Inr cl0, sa)
               \<and> getAllChannels cl0 sa = Some (Inr L0, sb)
               \<and> joinSuppportCmd_exec cl0 dry L0 sb = (None, s'))"
    by blast
  from w2 W2a W2b have W2': "\<exists>s'. leaveSuppportCmd ?New dry (fresh 100) = Some (None, s')
         \<and> filter (\<lambda>x. mutating (fst x)) (issued (fresh 100) s') = []
         \<and> (\<exists>cl0 sa L0 sb. checkAuth ?New dry (fresh 100) = (Inr cl0, sa)
               \<and> getAllChannels cl0 sa = Some (Inr L0, sb)
               \<and> leaveSuppportCmd_exec cl0 dry L0 sb = (None, s'))"
    by blast
  have n1: "''_a'' \<in> set (sort (supportChannelNames (joinSuppportCmd_select scenario_D)))"
    and n2: "''_beta'' \<in> set (sort (supportChannelNames (leaveSuppportCmd_select scenario_leave)))"
    by (simp_all add: scenario_D_selected scenario_leave_names)
  from t2 [THEN conjunct2, THEN conjunct2, THEN conjunct2, THEN conjunct2, THEN conjunct2, THEN conjunct2, THEN conjunct2, THEN conjunct1] n1
  have I1: "\<exists>ch \<in> set scenario_D. Name ch = ''_a'' \<and> \<not> IsMember ch
         \<and> lookup (channelIDs (joinSuppportCmd_select scenario_D)) ''_a'' = ID ch"
    by (rule bspec)
  from t2 [THEN conjunct2, THEN conjunct2, THEN conjunct2, THEN conjunct2, THEN conjunct2, THEN conjunct2, THEN conjunct2, THEN conjunct2, THEN conjunct1] n2
  have I2: "\<exists>ch \<in> set scenario_leave. Name ch = ''_beta'' \<and> IsMember ch
         \<and> lookup (channelIDs (leaveSuppportCmd_select scenario_leave)) ''_beta'' = ID ch"
    by (rule bspec)
  show ?thesis
    by (intro conjI)
       (fact d l W1' W2' A [THEN conjunct1] A [THEN conjunct2] C1 C2 D1 D2 D3 D4 dj dl
          scenario_D_succeeds(1) scenario_leave_succeeds(1) n1 n2 I1 I2)+
qed

text \<open>
  Two selected channels \<open>C1\<close> and \<open>C2\<close> with the one name \<open>_acme\<close>: the second
  assignment to \<open>channelIDs\<close> replaces the first, so a live Leave run that returns no
  error has left \<open>C2\<close> twice and \<open>C1\<close> not at all, and a live Join run has marked \<open>C2\<close>
  twice and \<open>C1\<close> not at all.
\<close>

theorem twin_channels_counterexample:
  "supportChannelNames (leaveSuppportCmd_select twins_leave) = [''_acme'', ''_acme'']
   \<and> fst (leaveSuppportCmd_exec (scripted [] []) live twins_leave (fresh 100)) = None
   \<and> issued (fresh 100) (snd (leaveSuppportCmd_exec (scripted [] []) live twins_leave (fresh 100))) =
       [(LeaveChannel ''C2'', None), (LeaveChannel ''C2'', None)]
   \<and> supportChannelNames (joinSuppportCmd_select twins_join) = [''_acme'', ''_acme'']
   \<and> fst (joinSuppportCmd_exec (scripted [] []) live twins_join (fresh 100)) = None
   \<and> issued (fresh 100) (snd (joinSuppportCmd_exec (scripted [] []) live twins_join (fresh 100))) =
       [(JoinChannel ''_acme'', None), (JoinChannel ''_acme'', None),
        (Sleep 5, None), (Now 105, None),
        (SetChannelReadMark ''C2'' ''105'', None), (SetChannelReadMark ''C2'' ''105'', None)]"
proof -
  have 1: "fst (leaveSuppportCmd_exec (scripted [] []) live twins_leave (fresh 100)) = None"
    "issued (fresh 100) (snd (leaveSuppportCmd_exec (scripted [] []) live twins_leave (fresh 100))) =
       [(LeaveChannel ''C2'', None), (LeaveChannel ''C2'', None)]"
    by (simp_all add: leaveSuppportCmd_exec_def Let_def twins_leave_run live_def
          fresh_def issued_def record_effect_def Printf_def)
  have 2: "fst (joinSuppportCmd_exec (scripted [] []) live twins_join (fresh 100)) = None"
    "issued (fresh 100) (snd (joinSuppportCmd_exec (scripted [] []) live twins_join (fresh 100))) =
       [(JoinChannel ''_acme'', None), (JoinChannel ''_acme'', None),
        (Sleep 5, None), (Now 105, None),
        (SetChannelReadMark ''C2'' ''105'', None), (SetChannelReadMark ''C2'' ''105'', None)]"
    by (simp_all add: joinSuppportCmd_exec_def Let_def twins_join_run live_def
          fresh_def issued_def Sprintf_d_105 record_effect_def Printf_def)
  from 1 2 twins_leave_run(1) twins_join_run(1) show ?thesis by blast
qed

section \<open>The advisory list of Leave mode\<close>

text \<open>
  C5, at the input of Scenario B: the one listed channel is a member, starts with \<open>_\<close>
  and is externally shared. It is put in \<open>cannotLeave\<close>, no name is selected, and the
  command returns at the test for an empty selection after printing two chunks. The
  header of the manual-leave list and the channel's name are not printed, whatever the
  dry-run flag is.
\<close>

theorem advisory_skipped_on_empty_selection:
  "cannotLeave (leaveSuppportCmd_select scenario_B) = [''_acme'']
   \<and> leaveSuppportCmd_exec cl fl scenario_B s =
       (None, s\<lparr>stdout := stdout s @
          [rule_line, ''There are no support channels left for you to leave.'' @ nl]\<rparr>)
   \<and> printed s (snd (leaveSuppportCmd_exec cl fl scenario_B s)) =
       [rule_line, ''There are no support channels left for you to leave.'' @ nl]
   \<and> manual_header \<notin> set (printed s (snd (leaveSuppportCmd_exec cl fl scenario_B s)))
   \<and> ''_acme'' @ nl \<notin> set (printed s (snd (leaveSuppportCmd_exec cl fl scenario_B s)))"
proof -
  have run: "leaveSuppportCmd_exec cl fl scenario_B s =
       (None, s\<lparr>stdout := stdout s @
          [rule_line, ''There are no support channels left for you to leave.'' @ nl]\<rparr>)"
    by (simp add: leaveSuppportCmd_exec_empty [OF scenario_B_selected(1)] Printf_def)
  have pr: "printed s (snd (leaveSuppportCmd_exec cl fl scenario_B s)) =
       [rule_line, ''There are no support channels left for you to leave.'' @ nl]"
    unfolding run by (simp add: printed_def)
  have "manual_header \<notin> set [rule_line, ''There are no support channels left for you to leave.'' @ nl]"
    "''_acme'' @ nl \<notin> set [rule_line, ''There are no support channels left for you to leave.'' @ nl]"
    by (simp_all add: manual_header_def rule_line_def nl_def)
  with scenario_B_selected(2) run pr show ?thesis by simp
qed

text \<open>
  The two other returns of the command do print the list: a dry run with a selection,
  and a live run in which every leave succeeded, end with the header, one line per name
  of \<open>cannotLeave\<close>, and the closing chunks.
\<close>

lemma advisory_printed_with_selection:
  assumes sel: "supportChannelNames (leaveSuppportCmd_select L) \<noteq> []"
    and run: "leaveSuppportCmd_exec cl fl L s = (None, s')"
  shows "\<exists>before closing. printed s s' =
     before @ [manual_header] @ map (\<lambda>x. x @ nl) (cannotLeave (leaveSuppportCmd_select L)) @ closing
     \<and> manual_header \<notin> set closing"
proof (cases "dryRun fl")
  case True
  let ?names = "sort (supportChannelNames (leaveSuppportCmd_select L))"
  from run sel True have "stdout s' = stdout s @
      ([rule_line, ''You will be leaving the following channels:'' @ nl] @ map (\<lambda>x. x @ nl) ?names
        @ [rule_line]) @ [manual_header]
      @ map (\<lambda>x. x @ nl) (cannotLeave (leaveSuppportCmd_select L))
      @ [nl @ ''Dry run only, no exits were performed.'' @ nl]"
    by (auto simp: leaveSuppportCmd_exec_def Let_def)
  then have "printed s s' =
      ([rule_line, ''You will be leaving the following channels:'' @ nl] @ map (\<lambda>x. x @ nl) ?names
        @ [rule_line]) @ [manual_header]
      @ map (\<lambda>x. x @ nl) (cannotLeave (leaveSuppportCmd_select L))
      @ [nl @ ''Dry run only, no exits were performed.'' @ nl]"
    by (simp add: printed_def)
  moreover have "manual_header \<notin> set [nl @ ''Dry run only, no exits were performed.'' @ nl]"
    by (simp add: manual_header_def nl_def)
  ultimately show ?thesis by blast
next
  case False
  let ?names = "sort (supportChannelNames (leaveSuppportCmd_select L))"
  let ?ids = "channelIDs (leaveSuppportCmd_select L)"
  let ?s2 = "Printf rule_line (print_each ?names
     (Printf (''You will be leaving the following channels:'' @ nl) (Printf rule_line s)))"
  obtain r1 s3 where l: "leave_each cl ?ids ?names ?s2 = (r1, s3)"
    by (cases "leave_each cl ?ids ?names ?s2")
  from run sel False l have r1: "r1 = None"
    and s': "s' = Printf (''Done!'' @ nl @ nl) (Printf rule_line
        (print_each (cannotLeave (leaveSuppportCmd_select L))
           (Printf manual_header (Printf rule_line s3))))"
    by (auto simp: leaveSuppportCmd_exec_def Let_def split: option.splits)
  from l r1 have "stdout s3 = stdout ?s2 @ map (\<lambda>n. ''Left '' @ n @ nl) ?names"
    using each_stdout [of _ "leave_of ?ids" "\<lambda>n. ''Left '' @ n @ nl" ?names ?s2 s3]
    by (simp add: leave_each_each)
  then have "stdout s' = stdout s @
      ([rule_line, ''You will be leaving the following channels:'' @ nl] @ map (\<lambda>x. x @ nl) ?names
        @ [rule_line] @ map (\<lambda>n. ''Left '' @ n @ nl) ?names @ [rule_line]) @ [manual_header]
      @ map (\<lambda>x. x @ nl) (cannotLeave (leaveSuppportCmd_select L))
      @ [rule_line, ''Done!'' @ nl @ nl]"
    by (simp add: s')
  then have "printed s s' =
      ([rule_line, ''You will be leaving the following channels:'' @ nl] @ map (\<lambda>x. x @ nl) ?names
        @ [rule_line] @ map (\<lambda>n. ''Left '' @ n @ nl) ?names @ [rule_line]) @ [manual_header]
      @ map (\<lambda>x. x @ nl) (cannotLeave (leaveSuppportCmd_select L))
      @ [rule_line, ''Done!'' @ nl @ nl]"
    by (simp add: printed_def)
  moreover have "manual_header \<notin> set [rule_line, ''Done!'' @ nl @ nl]"
    by (simp add: manual_header_def rule_line_def nl_def)
  ultimately show ?thesis by blast
qed

section \<open>Nothing to do\<close>

text \<open>
  C6. When no name is selected, either command returns no error, and the state it leaves
  is the one it started in with two more chunks printed, the separator and the message
  that no support channels are left: no effect is issued and the world is untouched.
  The dry-run flag plays no part.
\<close>

theorem empty_selection_nothing_to_do:
  "(supportChannelNames (joinSuppportCmd_select L) = [] \<longrightarrow>
      joinSuppportCmd_exec cl fl L s =
        (None, s\<lparr>stdout := stdout s @
           [rule_line, ''There are no support channels left for you to join.'' @ nl]\<rparr>))
   \<and> (supportChannelNames (leaveSuppportCmd_select L') = [] \<longrightarrow>
      leaveSuppportCmd_exec cl fl L' s =
        (None, s\<lparr>stdout := stdout s @
           [rule_line, ''There are no support channels left for you to leave.'' @ nl]\<rparr>))"
  by (simp add: joinSuppportCmd_exec_empty leaveSuppportCmd_exec_empty Printf_def)

theorem empty_selection_nothing_to_do_witness:
  "supportChannelNames (joinSuppportCmd_select []) = []
   \<and> joinSuppportCmd_exec (scripted [] []) live [] (fresh 100) =
        (None, (fresh 100)\<lparr>stdout := stdout (fresh 100) @
           [rule_line, ''There are no support channels left for you to join.'' @ nl]\<rparr>)
   \<and> supportChannelNames (leaveSuppportCmd_select scenario_B) = []
   \<and> leaveSuppportCmd_exec (scripted [] []) live scenario_B (fresh 100) =
        (None, (fresh 100)\<lparr>stdout := stdout (fresh 100) @
           [rule_line, ''There are no support channels left for you to leave.'' @ nl]\<rparr>)"
proof -
  have j: "supportChannelNames (joinSuppportCmd_select []) = []"
    by (simp add: joinSuppportCmd_select_def no_selection_def)
  note t = empty_selection_nothing_to_do [where L = "[]" and L' = scenario_B
      and cl = "scripted [] []" and fl = live and s = "fresh 100"]
  from t j scenario_B_selected(1) show ?thesis by blast
qed

section \<open>Failures\<close>

text \<open>
  C7. In a run of either command a call has failed if and only if the command returns an
  error. When it returns the error \<open>e\<close>, the trace of the run is that of a loop aborted
  at some name: the calls before it are the planned ones, in order, and succeeded; the
  failing call is the last effect of the run and \<open>e\<close> is its error. In Join mode the
  failing call is a join, or a mark-read that follows all the joins, the pause and the
  clock read. Nothing is undone: a join run issues no leave and a leave run no join.
\<close>

theorem abort_on_first_failure:
  fixes L L' :: "channel list"
  defines "names \<equiv> sort (supportChannelNames (joinSuppportCmd_select L))"
    and "ids \<equiv> channelIDs (joinSuppportCmd_select L)"
    and "names' \<equiv> sort (supportChannelNames (leaveSuppportCmd_select L'))"
    and "ids' \<equiv> channelIDs (leaveSuppportCmd_select L')"
  assumes join: "joinSuppportCmd_exec cl fl L s = (r, s')"
    and leave: "leaveSuppportCmd_exec cl fl L' s = (r', s'')"
  shows "((\<exists>x \<in> set (issued s s'). snd x \<noteq> None) \<longleftrightarrow> r \<noteq> None)
       \<and> (\<forall>e. r = Some e \<longrightarrow>
            (\<exists>k. k < length names \<and> issued s s' = aborted_at JoinChannel names k e)
          \<or> (\<exists>t k. k < length names \<and>
                issued s s' = completed JoinChannel names @ [(Sleep 5, None), (Now t, None)] @
                  aborted_at (mark_of ids (Sprintf_d t)) names k e))
       \<and> (\<forall>x \<in> set (issued s s'). \<not> is_leave (fst x))
       \<and> ((\<exists>x \<in> set (issued s s''). snd x \<noteq> None) \<longleftrightarrow> r' \<noteq> None)
       \<and> (\<forall>e. r' = Some e \<longrightarrow>
            (\<exists>k. k < length names' \<and> issued s s'' = aborted_at (leave_of ids') names' k e))
       \<and> (\<forall>x \<in> set (issued s s''). \<not> is_join (fst x))"
proof -
  note j = joinSuppportCmd_exec_cases [OF join, folded names_def ids_def]
  note l = leaveSuppportCmd_exec_cases [OF leave, folded names'_def ids'_def]
  have j1: "(\<exists>x \<in> set (issued s s'). snd x \<noteq> None) \<longleftrightarrow> r \<noteq> None"
    using j by (elim disjE exE conjE;
      simp add: bex_Un some_failed_aborted none_failed_completed del: not_None_eq)
  have j2: "\<forall>e. r = Some e \<longrightarrow>
            (\<exists>k. k < length names \<and> issued s s' = aborted_at JoinChannel names k e)
          \<or> (\<exists>t k. k < length names \<and>
                issued s s' = completed JoinChannel names @ [(Sleep 5, None), (Now t, None)] @
                  aborted_at (mark_of ids (Sprintf_d t)) names k e)"
    using j by (elim disjE) auto
  have j3: "\<forall>x \<in> set (issued s s'). \<not> is_leave (fst x)"
    using j by (elim disjE exE conjE; simp add: ball_Un no_leave_in)
  have l1: "(\<exists>x \<in> set (issued s s''). snd x \<noteq> None) \<longleftrightarrow> r' \<noteq> None"
    using l by (elim disjE exE conjE;
      simp add: bex_Un some_failed_aborted none_failed_completed del: not_None_eq)
  have l2: "\<forall>e. r' = Some e \<longrightarrow>
            (\<exists>k. k < length names' \<and> issued s s'' = aborted_at (leave_of ids') names' k e)"
    using l by (elim disjE) auto
  have l3: "\<forall>x \<in> set (issued s s''). \<not> is_join (fst x)"
    using l by (elim disjE exE conjE; simp add: ball_Un no_join_in)
  from j1 j2 j3 l1 l2 l3 show ?thesis by blast
qed

text \<open>
  Scenario D of the specification as the witness: the joins of \<open>_a\<close> and \<open>_b\<close> succeed,
  the mark-read of the second channel fails; the run returns that error, both joins stay
  in the trace and nothing follows the failed call. A leave run fails at its second
  channel in the same way.
\<close>

theorem abort_on_first_failure_witness:
  "fst (joinSuppportCmd_exec (scripted [] [''C2'']) live scenario_D (fresh 100)) = Some (ApiError ''C2'')
   \<and> fst (leaveSuppportCmd_exec (scripted [] [''C2'']) live scenario_leave (fresh 100)) = Some (ApiError ''C2'')
   \<and> (\<exists>x \<in> set (issued (fresh 100)
          (snd (joinSuppportCmd_exec (scripted [] [''C2'']) live scenario_D (fresh 100)))). snd x \<noteq> None)
   \<and> ((\<exists>k. k < length [''_a'', ''_b''] \<and>
          issued (fresh 100) (snd (joinSuppportCmd_exec (scripted [] [''C2'']) live scenario_D (fresh 100))) =
            aborted_at JoinChannel [''_a'', ''_b''] k (ApiError ''C2''))
      \<or> (\<exists>t k. k < length [''_a'', ''_b''] \<and>
          issued (fresh 100) (snd (joinSuppportCmd_exec (scripted [] [''C2'']) live scenario_D (fresh 100))) =
            completed JoinChannel [''_a'', ''_b''] @ [(Sleep 5, None), (Now t, None)] @
            aborted_at (mark_of (channelIDs (joinSuppportCmd_select scenario_D)) (Sprintf_d t))
              [''_a'', ''_b''] k (ApiError ''C2'')))
   \<and> issued (fresh 100) (snd (joinSuppportCmd_exec (scripted [] [''C2'']) live scenario_D (fresh 100))) =
       [(JoinChannel ''_a'', None), (JoinChannel ''_b'', None), (Sleep 5, None), (Now 105, None),
        (SetChannelReadMark ''C3'' ''105'', None),
        (SetChannelReadMark ''C2'' ''105'', Some (ApiError ''C2''))]
   \<and> (\<exists>k. k < length [''_alpha'', ''_beta''] \<and>
          issued (fresh 100) (snd (leaveSuppportCmd_exec (scripted [] [''C2'']) live scenario_leave (fresh 100))) =
            aborted_at (leave_of (channelIDs (leaveSuppportCmd_select scenario_leave)))
              [''_alpha'', ''_beta''] k (ApiError ''C2''))
   \<and> issued (fresh 100) (snd (leaveSuppportCmd_exec (scripted [] [''C2'']) live scenario_leave (fresh 100))) =
       [(LeaveChannel ''C5'', None), (LeaveChannel ''C2'', Some (ApiError ''C2''))]"
proof -
  let ?cl = "scripted [] [''C2'']"
  let ?j = "joinSuppportCmd_exec ?cl live scenario_D (fresh 100)"
  let ?l = "leaveSuppportCmd_exec ?cl live scenario_leave (fresh 100)"
  have rj: "?j = (Some (ApiError ''C2''), snd ?j)" and rl: "?l = (Some (ApiError ''C2''), snd ?l)"
    by (rule run_eq, rule scenario_D_mark_fails(1), rule run_eq, rule scenario_leave_fails(1))
  note t = abort_on_first_failure [OF rj rl,
      unfolded scenario_D_selected(2) scenario_leave_names]
  from t have 1: "\<exists>x \<in> set (issued (fresh 100) (snd ?j)). snd x \<noteq> None"
    by blast
  from t have 2: "(\<exists>k. k < length [''_a'', ''_b''] \<and>
          issued (fresh 100) (snd ?j) = aborted_at JoinChannel [''_a'', ''_b''] k (ApiError ''C2''))
      \<or> (\<exists>t k. k < length [''_a'', ''_b''] \<and>
          issued (fresh 100) (snd ?j) =
            completed JoinChannel [''_a'', ''_b''] @ [(Sleep 5, None), (Now t, None)] @
            aborted_at (mark_of (channelIDs (joinSuppportCmd_select scenario_D)) (Sprintf_d t))
              [''_a'', ''_b''] k (ApiError ''C2''))"
    by blast
  from t have 3: "\<exists>k. k < length [''_alpha'', ''_beta''] \<and>
          issued (fresh 100) (snd ?l) =
            aborted_at (leave_of (channelIDs (leaveSuppportCmd_select scenario_leave)))
              [''_alpha'', ''_beta''] k (ApiError ''C2'')"
    by blast
  from 1 2 3 scenario_D_mark_fails scenario_leave_fails show ?thesis
    by blast
qed

section \<open>Marking the joined channels as read\<close>



text \<open>
  C10. A Join run that reaches the pause before the marking has read the clock exactly
  once, directly after the pause and before any mark-read; every mark-read of the run
  carries that one value, printed in decimal, as its timestamp; and the mark-read calls
  follow the selected names in the order in which the joins were made.
\<close>

theorem single_timestamp:
  fixes L :: "channel list"
  defines "names \<equiv> sort (supportChannelNames (joinSuppportCmd_select L))"
    and "ids \<equiv> channelIDs (joinSuppportCmd_select L)"
  assumes run: "joinSuppportCmd_exec cl fl L s = (r, s')"
    and reached: "(Sleep 5, None) \<in> set (issued s s')"
  shows "\<exists>t. filter is_clock (map fst (issued s s')) = [Now t]
           \<and> (\<exists>k \<le> length names. filter is_mark (map fst (issued s s')) =
                 map (\<lambda>n. SetChannelReadMark (lookup ids n) (Sprintf_d t)) (take k names))
           \<and> filter is_join (map fst (issued s s')) = map JoinChannel names
           \<and> (\<exists>A B. map fst (issued s s') = A @ [Sleep 5, Now t] @ B
                 \<and> (\<forall>x \<in> set A. is_join x) \<and> (\<forall>x \<in> set B. is_mark x))"
proof -
  note j = joinSuppportCmd_exec_cases [OF run, folded names_def ids_def]
  have nojoin: "(Sleep 5, None) \<notin> set (aborted_at JoinChannel names k e)" for k e
    by (auto simp: aborted_at_def dest: in_set_takeD)
  have mk: "mark_of ids ts = (\<lambda>n. SetChannelReadMark (lookup ids n) ts)" for ts
    by (rule ext) (simp add: mark_of_def)
  from j consider
      (none) "issued s s' = []"
    | (join) k e where "issued s s' = aborted_at JoinChannel names k e"
    | (whole) t where "issued s s' = completed JoinChannel names @
        [(Sleep 5, None), (Now t, None)] @ completed (mark_of ids (Sprintf_d t)) names"
    | (mark) t k e where "k < length names" "issued s s' = completed JoinChannel names @
        [(Sleep 5, None), (Now t, None)] @ aborted_at (mark_of ids (Sprintf_d t)) names k e"
    by (elim disjE exE conjE) blast+
  then show ?thesis
  proof cases
    case none
    with reached show ?thesis by simp
  next
    case join
    with reached nojoin show ?thesis by simp
  next
    case (whole t)
    note E = whole
    have 1: "filter is_clock (map fst (issued s s')) = [Now t]"
      by (simp add: E filter_map_none)
    have 2: "filter is_mark (map fst (issued s s')) =
        map (\<lambda>n. SetChannelReadMark (lookup ids n) (Sprintf_d t)) (take (length names) names)"
      by (simp add: E filter_map_none filter_map_all mk)
    have 3: "filter is_join (map fst (issued s s')) = map JoinChannel names"
      by (simp add: E filter_map_none filter_map_all)
    have 4: "map fst (issued s s') = map JoinChannel names @ [Sleep 5, Now t] @
        map (mark_of ids (Sprintf_d t)) names
      \<and> (\<forall>x \<in> set (map JoinChannel names). is_join x)
      \<and> (\<forall>x \<in> set (map (mark_of ids (Sprintf_d t)) names). is_mark x)"
      by (auto simp: E)
    from 1 2 3 4 show ?thesis by blast
  next
    case (mark t k e)
    note k = mark(1) and E = mark(2)
    have 1: "filter is_clock (map fst (issued s s')) = [Now t]"
      using k by (simp add: E filter_map_none)
    have 2: "Suc k \<le> length names \<and> filter is_mark (map fst (issued s s')) =
        map (\<lambda>n. SetChannelReadMark (lookup ids n) (Sprintf_d t)) (take (Suc k) names)"
      using k by (simp add: E filter_map_none filter_map_all mk [symmetric])
    have 3: "filter is_join (map fst (issued s s')) = map JoinChannel names"
      using k by (simp add: E filter_map_none filter_map_all)
    have 4: "map fst (issued s s') = map JoinChannel names @ [Sleep 5, Now t] @
        map (mark_of ids (Sprintf_d t)) (take (Suc k) names)
      \<and> (\<forall>x \<in> set (map JoinChannel names). is_join x)
      \<and> (\<forall>x \<in> set (map (mark_of ids (Sprintf_d t)) (take (Suc k) names)). is_mark x)"
      using k by (auto simp: E)
    from 1 2 3 4 show ?thesis by blast
  qed
qed

theorem single_timestamp_witness:
  "(Sleep 5, None) \<in>
     set (issued (fresh 100) (snd (joinSuppportCmd_exec (scripted [] []) live scenario_D (fresh 100))))
   \<and> (\<exists>t. filter is_clock (map fst
              (issued (fresh 100) (snd (joinSuppportCmd_exec (scripted [] []) live scenario_D (fresh 100))))) =
            [Now t]
         \<and> (\<exists>k \<le> length [''_a'', ''_b'']. filter is_mark (map fst
              (issued (fresh 100) (snd (joinSuppportCmd_exec (scripted [] []) live scenario_D (fresh 100))))) =
              map (\<lambda>n. SetChannelReadMark (lookup (channelIDs (joinSuppportCmd_select scenario_D)) n)
                     (Sprintf_d t)) (take k [''_a'', ''_b'']))
         \<and> filter is_join (map fst
              (issued (fresh 100) (snd (joinSuppportCmd_exec (scripted [] []) live scenario_D (fresh 100))))) =
              map JoinChannel [''_a'', ''_b''])
   \<and> issued (fresh 100) (snd (joinSuppportCmd_exec (scripted [] []) live scenario_D (fresh 100))) =
       [(JoinChannel ''_a'', None), (JoinChannel ''_b'', None), (Sleep 5, None), (Now 105, None),
        (SetChannelReadMark ''C3'' ''105'', None), (SetChannelReadMark ''C2'' ''105'', None)]"
proof -
  let ?j = "joinSuppportCmd_exec (scripted [] []) live scenario_D (fresh 100)"
  have rj: "?j = (fst ?j, snd ?j)"
    by simp
  have reached: "(Sleep 5, None) \<in> set (issued (fresh 100) (snd ?j))"
    unfolding scenario_D_succeeds(2) by simp
  note t = single_timestamp [OF rj reached, unfolded scenario_D_selected(2)]
  from t have "\<exists>t. filter is_clock (map fst (issued (fresh 100) (snd ?j))) = [Now t]
         \<and> (\<exists>k \<le> length [''_a'', ''_b'']. filter is_mark (map fst (issued (fresh 100) (snd ?j))) =
              map (\<lambda>n. SetChannelReadMark (lookup (channelIDs (joinSuppportCmd_select scenario_D)) n)
                     (Sprintf_d t)) (take k [''_a'', ''_b'']))
         \<and> filter is_join (map fst (issued (fresh 100) (snd ?j))) = map JoinChannel [''_a'', ''_b'']"
    by blast
  with reached scenario_D_succeeds(2) show ?thesis
    by blast
qed

end
